theory Spec2Isabelle
  imports Main "HOL-Library.Word"
begin

unbundle bit_operations_syntax

section \<open>PCI configuration-space access (kernel/pci/pci.c)\<close>

subsection \<open>Data\<close>

type_synonym u8 = "8 word"
type_synonym u16 = "16 word"
type_synonym u32 = "32 word"
type_synonym u64 = "64 word"

text \<open>
  Modelled from the spec: \<open>struct mcfg_entry\<close> is declared in \<open>pci.h\<close>, which is not
  among the sources. The spec describes a bus access entry as a segment number, an
  inclusive bus-number range and a base physical address; the field names are the ones
  the source reads, the widths are those of the firmware table's fixed-size record.
\<close>

record mcfg_entry =
  base :: u64
  seg :: u16
  start_bus_number :: u8
  end_bus_number :: u8

text \<open>
  The firmware table as \<open>pci_init\<close> sees it: the length field of its header and the
  array of entries that follows the fixed-size part (\<open>mcfg->entries[i]\<close>).
\<close>

record mcfg =
  header_length :: u32
  entries :: "nat \<Rightarrow> mcfg_entry"

text \<open>
  Constants of headers that are not among the sources, taken as parameters:
  \<open>sizeof(struct mcfg)\<close>, \<open>sizeof(struct mcfg_entry)\<close> and \<open>MEM_PHYS_OFFSET\<close>.
\<close>

record pci_config =
  SIZEOF_MCFG :: nat
  SIZEOF_MCFG_ENTRY :: nat
  MEM_PHYS_OFFSET :: u64

text \<open>
  The two static function pointers \<open>internal_read\<close> and \<open>internal_write\<close> hold nothing
  before \<open>pci_init\<close> (static storage is zeroed), and one of the two strategies after.
\<close>

datatype accessor = Unset | Legacy | Mcfg

text \<open>
  Everything the functions do to the outside, in order: port instructions, memory-mapped
  accesses, and the diagnostics they print.
\<close>

datatype pci_event =
    PortByteOut u16 u8
  | PortWordOut u16 u16
  | PortDwordOut u16 u32
  | PortByteIn u16
  | PortWordIn u16
  | PortDwordIn u16
  | MmInB u64
  | MmInW u64
  | MmInD u64
  | MmOutB u64 u8
  | MmOutW u64 u16
  | MmOutD u64 u32
  | UnknownAccessSize u8
  | NonexistentRead u16 u8 u8 u8
  | NonexistentWrite u16 u8 u8 u8

datatype pci_error = NullCall

record pci_state =
  internal_read :: accessor
  internal_write :: accessor
  mcfg_entries :: "mcfg_entry list"
  ports :: "u16 \<Rightarrow> u8"
  mem :: "u64 \<Rightarrow> u8"
  trace :: "pci_event list"

subsection \<open>Ports and memory as byte stores\<close>

text \<open>
  Modelled from the spec: the port and memory-mapped primitives (\<open>ports.h\<close>, \<open>mmio.h\<close>)
  are not among the sources; the spec treats them as atomic sized read/write intrinsics.
  Both address spaces are byte addressed, and a 2- or 4-byte access covers consecutive
  addresses, least significant byte first.
\<close>

definition load16 :: "('a::len word \<Rightarrow> u8) \<Rightarrow> 'a word \<Rightarrow> u16" where
  "load16 m a = ucast (m a) OR push_bit 8 (ucast (m (a + 1)))"

definition load32 :: "('a::len word \<Rightarrow> u8) \<Rightarrow> 'a word \<Rightarrow> u32" where
  "load32 m a = ucast (m a) OR push_bit 8 (ucast (m (a + 1)))
     OR push_bit 16 (ucast (m (a + 2))) OR push_bit 24 (ucast (m (a + 3)))"

definition store16 :: "('a::len word \<Rightarrow> u8) \<Rightarrow> 'a word \<Rightarrow> u16 \<Rightarrow> ('a word \<Rightarrow> u8)" where
  "store16 m a v = m(a := ucast v, a + 1 := ucast (drop_bit 8 v))"

definition store32 :: "('a::len word \<Rightarrow> u8) \<Rightarrow> 'a word \<Rightarrow> u32 \<Rightarrow> ('a word \<Rightarrow> u8)" where
  "store32 m a v = m(a := ucast v, a + 1 := ucast (drop_bit 8 v),
     a + 2 := ucast (drop_bit 16 v), a + 3 := ucast (drop_bit 24 v))"

definition emit :: "pci_event \<Rightarrow> pci_state \<Rightarrow> pci_state" where
  "emit e s = s\<lparr>trace := trace s @ [e]\<rparr>"

definition port_byte_out :: "u16 \<Rightarrow> u8 \<Rightarrow> pci_state \<Rightarrow> pci_state" where
  "port_byte_out p v s = emit (PortByteOut p v) (s\<lparr>ports := (ports s)(p := v)\<rparr>)"

definition port_word_out :: "u16 \<Rightarrow> u16 \<Rightarrow> pci_state \<Rightarrow> pci_state" where
  "port_word_out p v s = emit (PortWordOut p v) (s\<lparr>ports := store16 (ports s) p v\<rparr>)"

definition port_dword_out :: "u16 \<Rightarrow> u32 \<Rightarrow> pci_state \<Rightarrow> pci_state" where
  "port_dword_out p v s = emit (PortDwordOut p v) (s\<lparr>ports := store32 (ports s) p v\<rparr>)"

definition port_byte_in :: "u16 \<Rightarrow> pci_state \<Rightarrow> u8 \<times> pci_state" where
  "port_byte_in p s = (ports s p, emit (PortByteIn p) s)"

definition port_word_in :: "u16 \<Rightarrow> pci_state \<Rightarrow> u16 \<times> pci_state" where
  "port_word_in p s = (load16 (ports s) p, emit (PortWordIn p) s)"

definition port_dword_in :: "u16 \<Rightarrow> pci_state \<Rightarrow> u32 \<times> pci_state" where
  "port_dword_in p s = (load32 (ports s) p, emit (PortDwordIn p) s)"

definition mmoutb :: "u64 \<Rightarrow> u8 \<Rightarrow> pci_state \<Rightarrow> pci_state" where
  "mmoutb a v s = emit (MmOutB a v) (s\<lparr>mem := (mem s)(a := v)\<rparr>)"

definition mmoutw :: "u64 \<Rightarrow> u16 \<Rightarrow> pci_state \<Rightarrow> pci_state" where
  "mmoutw a v s = emit (MmOutW a v) (s\<lparr>mem := store16 (mem s) a v\<rparr>)"

definition mmoutd :: "u64 \<Rightarrow> u32 \<Rightarrow> pci_state \<Rightarrow> pci_state" where
  "mmoutd a v s = emit (MmOutD a v) (s\<lparr>mem := store32 (mem s) a v\<rparr>)"

definition mminb :: "u64 \<Rightarrow> pci_state \<Rightarrow> u8 \<times> pci_state" where
  "mminb a s = (mem s a, emit (MmInB a) s)"

definition mminw :: "u64 \<Rightarrow> pci_state \<Rightarrow> u16 \<times> pci_state" where
  "mminw a s = (load16 (mem s) a, emit (MmInW a) s)"

definition mmind :: "u64 \<Rightarrow> pci_state \<Rightarrow> u32 \<times> pci_state" where
  "mmind a s = (load32 (mem s) a, emit (MmInD a) s)"

subsection \<open>The legacy strategy\<close>

text \<open>
  \<open>make_pci_address\<close> takes bus, slot and function as 32-bit values; \<open>offset & 0xFFFC\<close>
  is widened to 32 bits before the disjunction.
\<close>

definition make_pci_address :: "u32 \<Rightarrow> u32 \<Rightarrow> u32 \<Rightarrow> u16 \<Rightarrow> u32" where
  "make_pci_address bus slot function offset =
     push_bit 16 bus OR push_bit 11 slot OR push_bit 8 function
       OR ucast (offset AND 0xFFFC) OR push_bit 31 1"

text \<open>
  The port argument \<open>0xCFC + (offset & 3)\<close> is at most \<open>0xCFF\<close>, so the conversion to the
  16-bit port number loses nothing. A returned byte or word is widened to 32 bits; a
  written 32-bit value is cut to the width of the port instruction.
\<close>

definition legacy_pci_read ::
  "u16 \<Rightarrow> u8 \<Rightarrow> u8 \<Rightarrow> u8 \<Rightarrow> u16 \<Rightarrow> u8 \<Rightarrow> pci_state \<Rightarrow> u32 \<times> pci_state" where
  "legacy_pci_read sg bus slot function offset access_size s =
     (let s1 = port_dword_out 0xCF8
                 (make_pci_address (ucast bus) (ucast slot) (ucast function) offset) s
      in if access_size = 1 then
           (let (v, s2) = port_byte_in (0xCFC + (offset AND 3)) s1 in (ucast v, s2))
         else if access_size = 2 then
           (let (v, s2) = port_word_in (0xCFC + (offset AND 2)) s1 in (ucast v, s2))
         else if access_size = 4 then
           port_dword_in 0xCFC s1
         else (0, emit (UnknownAccessSize access_size) s1))"

definition legacy_pci_write ::
  "u16 \<Rightarrow> u8 \<Rightarrow> u8 \<Rightarrow> u8 \<Rightarrow> u16 \<Rightarrow> u32 \<Rightarrow> u8 \<Rightarrow> pci_state \<Rightarrow> pci_state" where
  "legacy_pci_write sg bus slot function offset val access_size s =
     (let s1 = port_dword_out 0xCF8
                 (make_pci_address (ucast bus) (ucast slot) (ucast function) offset) s
      in if access_size = 1 then port_byte_out (0xCFC + (offset AND 3)) (ucast val) s1
         else if access_size = 2 then port_word_out (0xCFC + (offset AND 2)) (ucast val) s1
         else if access_size = 4 then port_dword_out 0xCFC val s1
         else emit (UnknownAccessSize access_size) s1)"

subsection \<open>The memory-mapped strategy\<close>

text \<open>
  \<open>((bus - start) << 20) | (slot << 15) | (function << 12)\<close> is computed in \<open>int\<close>
  (the 8-bit operands are promoted) and converted to 64 bits where it meets the base.
\<close>

definition device_offset :: "u8 \<Rightarrow> u8 \<Rightarrow> u8 \<Rightarrow> u8 \<Rightarrow> u64" where
  "device_offset bus start slot function =
     scast (push_bit 20 ((ucast bus :: u32) - ucast start)
              OR push_bit 15 (ucast slot) OR push_bit 12 (ucast function) :: u32)"

text \<open>The read path joins the register offset with \<open>|\<close>, the write path with \<open>+\<close>.\<close>

definition mcfg_read_addr :: "pci_config \<Rightarrow> mcfg_entry \<Rightarrow> u8 \<Rightarrow> u8 \<Rightarrow> u8 \<Rightarrow> u16 \<Rightarrow> u64" where
  "mcfg_read_addr cfg entry bus slot function offset =
     ((base entry + device_offset bus (start_bus_number entry) slot function) OR ucast offset)
       + MEM_PHYS_OFFSET cfg"

definition mcfg_write_addr :: "pci_config \<Rightarrow> mcfg_entry \<Rightarrow> u8 \<Rightarrow> u8 \<Rightarrow> u8 \<Rightarrow> u16 \<Rightarrow> u64" where
  "mcfg_write_addr cfg entry bus slot function offset =
     ((base entry + device_offset bus (start_bus_number entry) slot function) + ucast offset)
       + MEM_PHYS_OFFSET cfg"

text \<open>The test both scans make on an entry: same segment, bus within the inclusive range.\<close>

definition entry_matches :: "u16 \<Rightarrow> u8 \<Rightarrow> mcfg_entry \<Rightarrow> bool" where
  "entry_matches sg bus entry \<longleftrightarrow>
     seg entry = sg \<and> start_bus_number entry \<le> bus \<and> bus \<le> end_bus_number entry"

text \<open>
  The scan of \<open>mcfg_pci_read\<close> over the entries still to be visited. A matching entry with
  a supported size returns from inside the loop; with an unsupported size the \<open>break\<close>
  only leaves the \<open>switch\<close>, and the scan goes on to the next entry.
\<close>

fun mcfg_read_scan ::
  "pci_config \<Rightarrow> mcfg_entry list \<Rightarrow> u16 \<Rightarrow> u8 \<Rightarrow> u8 \<Rightarrow> u8 \<Rightarrow> u16 \<Rightarrow> u8 \<Rightarrow> pci_state
     \<Rightarrow> u32 \<times> pci_state" where
  "mcfg_read_scan cfg [] sg bus slot function offset access_size s =
     (0, emit (NonexistentRead sg bus slot function) s)"
| "mcfg_read_scan cfg (entry # rest) sg bus slot function offset access_size s =
     (if entry_matches sg bus entry then
        (let addr = mcfg_read_addr cfg entry bus slot function offset
         in if access_size = 1 then (let (v, s1) = mminb addr s in (ucast v, s1))
            else if access_size = 2 then (let (v, s1) = mminw addr s in (ucast v, s1))
            else if access_size = 4 then mmind addr s
            else mcfg_read_scan cfg rest sg bus slot function offset access_size
                   (emit (UnknownAccessSize access_size) s))
      else mcfg_read_scan cfg rest sg bus slot function offset access_size s)"

definition mcfg_pci_read ::
  "pci_config \<Rightarrow> u16 \<Rightarrow> u8 \<Rightarrow> u8 \<Rightarrow> u8 \<Rightarrow> u16 \<Rightarrow> u8 \<Rightarrow> pci_state \<Rightarrow> u32 \<times> pci_state" where
  "mcfg_pci_read cfg sg bus slot function offset access_size s =
     mcfg_read_scan cfg (mcfg_entries s) sg bus slot function offset access_size s"

text \<open>The scan of \<open>mcfg_pci_write\<close>: the first matching entry ends it, whatever the size.\<close>

fun mcfg_write_scan ::
  "pci_config \<Rightarrow> mcfg_entry list \<Rightarrow> u16 \<Rightarrow> u8 \<Rightarrow> u8 \<Rightarrow> u8 \<Rightarrow> u16 \<Rightarrow> u32 \<Rightarrow> u8 \<Rightarrow> pci_state
     \<Rightarrow> pci_state" where
  "mcfg_write_scan cfg [] sg bus slot function offset val access_size s =
     emit (NonexistentWrite sg bus slot function) s"
| "mcfg_write_scan cfg (entry # rest) sg bus slot function offset val access_size s =
     (if entry_matches sg bus entry then
        (let addr = mcfg_write_addr cfg entry bus slot function offset
         in if access_size = 1 then mmoutb addr (ucast val) s
            else if access_size = 2 then mmoutw addr (ucast val) s
            else if access_size = 4 then mmoutd addr val s
            else emit (UnknownAccessSize access_size) s)
      else mcfg_write_scan cfg rest sg bus slot function offset val access_size s)"

definition mcfg_pci_write ::
  "pci_config \<Rightarrow> u16 \<Rightarrow> u8 \<Rightarrow> u8 \<Rightarrow> u8 \<Rightarrow> u16 \<Rightarrow> u32 \<Rightarrow> u8 \<Rightarrow> pci_state \<Rightarrow> pci_state" where
  "mcfg_pci_write cfg sg bus slot function offset val access_size s =
     mcfg_write_scan cfg (mcfg_entries s) sg bus slot function offset val access_size s"

subsection \<open>Initialisation and dispatch\<close>

text \<open>
  \<open>acpi_find_sdt("MCFG", 0)\<close> is an external lookup: its result is the argument, \<open>None\<close>
  for \<open>NULL\<close>. The comparison and the entry count are computed in \<open>size_t\<close>; in the last
  branch the length is at least \<open>sizeof(struct mcfg)\<close>, so the subtraction does not wrap.
  The loop pushes \<open>&mcfg->entries[i]\<close> for \<open>i\<close> from 0 to the count; the table is firmware
  data that nothing here writes, so the entries are kept by value.
\<close>

definition pci_init :: "pci_config \<Rightarrow> mcfg option \<Rightarrow> pci_state \<Rightarrow> pci_state" where
  "pci_init cfg tbl s =
     (case tbl of
        None \<Rightarrow> s\<lparr>internal_read := Legacy, internal_write := Legacy\<rparr>
      | Some t \<Rightarrow>
          if unat (header_length t) < SIZEOF_MCFG cfg + SIZEOF_MCFG_ENTRY cfg then
            s\<lparr>internal_read := Legacy, internal_write := Legacy\<rparr>
          else
            (let n = (unat (header_length t) - SIZEOF_MCFG cfg) div SIZEOF_MCFG_ENTRY cfg
             in s\<lparr>mcfg_entries := fold (\<lambda>i v. v @ [entries t i]) [0..<n] [],
                  internal_read := Mcfg, internal_write := Mcfg\<rparr>))"

text \<open>A call through a function pointer that was never set does not return a value.\<close>

definition pci_read ::
  "pci_config \<Rightarrow> u16 \<Rightarrow> u8 \<Rightarrow> u8 \<Rightarrow> u8 \<Rightarrow> u16 \<Rightarrow> u8 \<Rightarrow> pci_state
     \<Rightarrow> pci_error + (u32 \<times> pci_state)" where
  "pci_read cfg sg bus slot function offset access_size s =
     (case internal_read s of
        Unset \<Rightarrow> Inl NullCall
      | Legacy \<Rightarrow> Inr (legacy_pci_read sg bus slot function offset access_size s)
      | Mcfg \<Rightarrow> Inr (mcfg_pci_read cfg sg bus slot function offset access_size s))"

definition pci_write ::
  "pci_config \<Rightarrow> u16 \<Rightarrow> u8 \<Rightarrow> u8 \<Rightarrow> u8 \<Rightarrow> u16 \<Rightarrow> u32 \<Rightarrow> u8 \<Rightarrow> pci_state
     \<Rightarrow> pci_error + pci_state" where
  "pci_write cfg sg bus slot function offset val access_size s =
     (case internal_write s of
        Unset \<Rightarrow> Inl NullCall
      | Legacy \<Rightarrow> Inr (legacy_pci_write sg bus slot function offset val access_size s)
      | Mcfg \<Rightarrow> Inr (mcfg_pci_write cfg sg bus slot function offset val access_size s))"

text \<open>Any number of later calls, in order; the values read are dropped.\<close>

datatype pci_call =
    PciRead u16 u8 u8 u8 u16 u8
  | PciWrite u16 u8 u8 u8 u16 u32 u8

fun pci_calls :: "pci_config \<Rightarrow> pci_call list \<Rightarrow> pci_state \<Rightarrow> pci_error + pci_state" where
  "pci_calls cfg [] s = Inr s"
| "pci_calls cfg (PciRead sg bus slot function offset access_size # cs) s =
     (case pci_read cfg sg bus slot function offset access_size s of
        Inl e \<Rightarrow> Inl e
      | Inr (v, s') \<Rightarrow> pci_calls cfg cs s')"
| "pci_calls cfg (PciWrite sg bus slot function offset val access_size # cs) s =
     (case pci_write cfg sg bus slot function offset val access_size s of
        Inl e \<Rightarrow> Inl e
      | Inr s' \<Rightarrow> pci_calls cfg cs s')"

text \<open>Which events are diagnostics (the three \<open>printf\<close> calls of the file).\<close>

fun diagnostic :: "pci_event \<Rightarrow> bool" where
  "diagnostic (UnknownAccessSize _) = True"
| "diagnostic (NonexistentRead _ _ _ _) = True"
| "diagnostic (NonexistentWrite _ _ _ _) = True"
| "diagnostic _ = False"

text \<open>
  The data port as the specification words it: the data port \<open>0xCFC\<close> offset by
  \<open>offset & (size - 1)\<close>. It is compared with the ports the code uses.
\<close>

definition spec_data_port :: "u16 \<Rightarrow> u8 \<Rightarrow> u16" where
  "spec_data_port offset access_size = 0xCFC + (offset AND (ucast access_size - 1))"

text \<open>
  Concrete inputs for closed instances: the state before \<open>pci_init\<close> with all ports and
  memory bytes zero, a configuration with the sizes of the firmware table's layout,
  and a table with one entry for segment 0, buses 0 to 255, at base 0.
\<close>

definition pci_boot :: pci_state where
  "pci_boot = \<lparr>internal_read = Unset, internal_write = Unset, mcfg_entries = [],
     ports = (\<lambda>_. 0), mem = (\<lambda>_. 0), trace = []\<rparr>"

definition cfg0 :: pci_config where
  "cfg0 = \<lparr>SIZEOF_MCFG = 44, SIZEOF_MCFG_ENTRY = 16, MEM_PHYS_OFFSET = 0xFFFF800000000000\<rparr>"

definition entry0 :: mcfg_entry where
  "entry0 = \<lparr>base = 0, seg = 0, start_bus_number = 0, end_bus_number = 255\<rparr>"

definition table0 :: mcfg where
  "table0 = \<lparr>header_length = 60, entries = (\<lambda>_. entry0)\<rparr>"

text \<open>A write followed by a read with the same arguments; the value read is the result.\<close>

definition write_then_read ::
  "pci_config \<Rightarrow> u16 \<Rightarrow> u8 \<Rightarrow> u8 \<Rightarrow> u8 \<Rightarrow> u16 \<Rightarrow> u32 \<Rightarrow> u8 \<Rightarrow> pci_state
     \<Rightarrow> pci_error + u32" where
  "write_then_read cfg sg bus slot function offset val access_size s =
     (case pci_write cfg sg bus slot function offset val access_size s of
        Inl e \<Rightarrow> Inl e
      | Inr s1 \<Rightarrow>
          (case pci_read cfg sg bus slot function offset access_size s1 of
             Inl e \<Rightarrow> Inl e
           | Inr (r, s2) \<Rightarrow> Inr r))"

text \<open>
  The specification's condition for the legacy strategy: the table is absent, or its
  header length is smaller than the fixed part plus one entry.
\<close>

definition no_usable_entries :: "pci_config \<Rightarrow> mcfg option \<Rightarrow> bool" where
  "no_usable_entries cfg tbl =
     (case tbl of
        None \<Rightarrow> True
      | Some t \<Rightarrow> unat (header_length t) < SIZEOF_MCFG cfg + SIZEOF_MCFG_ENTRY cfg)"

section \<open>Thread lifecycle (kernel/sched/thread.c)\<close>

subsection \<open>Data\<close>

text \<open>
  Modelled from the spec: \<open>thread.h\<close>, which declares the two enumerations, the thread
  and process structures and the stack constants, is not among the sources. The spec
  names the lifecycle states INITIAL, READY, RUNNING, BLOCKED and TERMINATED and the
  block reasons NOTHING, ON_SLEEP and ON_WAIT; the fields are the ones the source
  reads and writes (\<open>context_ptr\<close> for the member \<open>context\<close>). A pointer is a 64-bit
  address; the thread table holds pointers.
\<close>

datatype thread_states = INITIAL | READY | RUNNING | BLOCKED | TERMINATED

datatype block_on = NOTHING | ON_SLEEP | ON_WAIT

record thread =
  tid :: u32
  state_t :: thread_states
  block_t :: block_on
  tstack :: u64
  context_ptr :: u64
  killed :: bool
  return_val :: u64
  target_tick :: u64

record process =
  ttable :: "u64 list"
  return_code :: u8
  ppagemap :: u64
  current_top_addr :: u64

text \<open>
  Constants of headers that are not among the sources, taken as parameters: the two
  stack sizes and the page size, the size of \<open>struct cpu_context\<close> and the offsets of
  its members \<open>rip\<close> and \<open>rdi\<close>. They are sizes of objects in memory, far below \<open>2^64\<close>.
\<close>

record thread_config =
  TSTACK_SIZE :: nat
  KSTACK_SIZE :: nat
  PAGE_SIZE :: nat
  SIZEOF_CPU_CONTEXT :: nat
  RIP_OFFSET :: nat
  RDI_OFFSET :: nat


text \<open>
  What the functions do beyond the fields of the state, in order: taking and releasing
  \<open>thread_lock\<close>, \<open>cli\<close>, every write to a state or block-reason field, and the calls into
  the memory manager, the scheduler and the process layer.
\<close>

datatype kevent =
    Lock
  | Unlock
  | Cli
  | WriteState u64 thread_states
  | WriteBlock u64 block_on
  | VmmMap u64 u64 u64 u8
  | PmmFree u64 nat
  | Yield
  | ProcessExit

datatype kerror = Panic | BadPointer | OutOfRange | NoReturn

text \<open>
  The static counter \<open>nextid\<close>, the lock, the interrupt flag, the thread and process
  structures by address, raw memory (stacks and saved contexts), what \<open>running_thrd()\<close>
  and \<open>running_proc()\<close> return, the tick counter, and the events so far.
\<close>

record kstate =
  nextid :: u32
  thread_lock :: bool
  interrupts :: bool
  threads :: "u64 \<rightharpoonup> thread"
  procs :: "u64 \<rightharpoonup> process"
  memory :: "u64 \<Rightarrow> u8"
  running_thrd :: u64
  running_proc :: u64
  timer_tick :: u64
  events :: "kevent list"

text \<open>
  What the two allocators hand to one call of \<open>alloc_new_thread\<close>: the address \<open>kmalloc\<close>
  returns with the contents of the fresh block (not initialised), and the address
  \<open>pmm_allocz\<close> returns, 0 when it fails.
\<close>

record alloc_env =
  kmalloc_result :: u64
  kmalloc_content :: thread
  pmm_allocz_result :: u64

subsection \<open>Primitives\<close>

text \<open>
  Modelled from the spec: \<open>lock.h\<close> and the scheduler are not among the sources. \<open>LOCK\<close>
  returns with the lock held (after any wait), \<open>UNLOCK\<close> releases it, \<open>cli\<close> clears the
  interrupt flag; \<open>yield_to_scheduler\<close>, \<open>process_exit\<close>, \<open>vmm_map\<close> and \<open>pmm_free\<close> are
  recorded as events.
\<close>

definition event :: "kevent \<Rightarrow> kstate \<Rightarrow> kstate" where
  "event e s = s\<lparr>events := events s @ [e]\<rparr>"

definition LOCK :: "kstate \<Rightarrow> kstate" where
  "LOCK s = event Lock (s\<lparr>thread_lock := True\<rparr>)"

definition UNLOCK :: "kstate \<Rightarrow> kstate" where
  "UNLOCK s = event Unlock (s\<lparr>thread_lock := False\<rparr>)"

definition cli :: "kstate \<Rightarrow> kstate" where
  "cli s = event Cli (s\<lparr>interrupts := False\<rparr>)"

definition yield_to_scheduler :: "kstate \<Rightarrow> kstate" where
  "yield_to_scheduler s = event Yield s"

definition process_exit :: "kstate \<Rightarrow> kstate" where
  "process_exit s = event ProcessExit s"

definition upd_thread :: "u64 \<Rightarrow> (thread \<Rightarrow> thread) \<Rightarrow> kstate \<Rightarrow> kstate" where
  "upd_thread p f s = s\<lparr>threads := (threads s)(p := map_option f (threads s p))\<rparr>"

definition set_state_t :: "u64 \<Rightarrow> thread_states \<Rightarrow> kstate \<Rightarrow> kstate" where
  "set_state_t p v s = event (WriteState p v) (upd_thread p (\<lambda>t. t\<lparr>state_t := v\<rparr>) s)"

definition set_block_t :: "u64 \<Rightarrow> block_on \<Rightarrow> kstate \<Rightarrow> kstate" where
  "set_block_t p v s = event (WriteBlock p v) (upd_thread p (\<lambda>t. t\<lparr>block_t := v\<rparr>) s)"

text \<open>\<open>memset(a, 0, n)\<close>, and an 8-byte store, least significant byte first.\<close>

definition memset_zero :: "(u64 \<Rightarrow> u8) \<Rightarrow> u64 \<Rightarrow> nat \<Rightarrow> (u64 \<Rightarrow> u8)" where
  "memset_zero m a n = (\<lambda>x. if unat (x - a) < n then 0 else m x)"

definition store64 :: "(u64 \<Rightarrow> u8) \<Rightarrow> u64 \<Rightarrow> u64 \<Rightarrow> (u64 \<Rightarrow> u8)" where
  "store64 m a v = (\<lambda>x. if unat (x - a) < 8 then ucast (drop_bit (8 * unat (x - a)) v) else m x)"

subsection \<open>Allocation\<close>

text \<open>
  The loop \<open>for (i = 0; i < TSTACK_SIZE; i += PAGE_SIZE) vmm_map(...)\<close>, from \<open>i\<close> on. Its body
  reads \<open>proc->ppagemap\<close> and \<open>proc->current_top_addr\<close>; with a page size of 0 it would
  not end.
\<close>

function vmm_map_loop ::
  "thread_config \<Rightarrow> process option \<Rightarrow> u64 \<Rightarrow> nat \<Rightarrow> kerror + kevent list" where
  "vmm_map_loop cfg pr stack i =
     (if i < TSTACK_SIZE cfg then
        (case pr of
           None \<Rightarrow> Inl BadPointer
         | Some p \<Rightarrow>
             if PAGE_SIZE cfg = 0 then Inl NoReturn
             else (case vmm_map_loop cfg pr stack (i + PAGE_SIZE cfg) of
                     Inl e \<Rightarrow> Inl e
                   | Inr evs \<Rightarrow>
                       Inr (VmmMap (ppagemap p) (current_top_addr p + of_nat i)
                              (stack + of_nat i) 3 # evs)))
      else Inr [])"
  by pat_completeness auto
termination
  by (relation "measure (\<lambda>(cfg, pr, stack, i). TSTACK_SIZE cfg - i)") auto

text \<open>
  \<open>alloc_new_thread\<close>. The block from \<open>kmalloc\<close> is written through without a check, so
  a null result is a bad pointer. \<open>pmm_allocz\<close> hands out zeroed pages. The pages are
  mapped before the result of \<open>pmm_allocz\<close> is tested. The stack pointer is computed in
  64 bits.
\<close>

definition alloc_new_thread ::
  "thread_config \<Rightarrow> alloc_env \<Rightarrow> u64 \<Rightarrow> kstate \<Rightarrow> kerror + (u64 \<times> kstate)" where
  "alloc_new_thread cfg env proc s =
     (let thrd = kmalloc_result env in
      if thrd = 0 then Inl BadPointer
      else
        let s0 = s\<lparr>threads := (threads s)(thrd \<mapsto> kmalloc_content env)\<rparr>;
            s1 = LOCK s0;
            stack = pmm_allocz_result env;
            s2 = (if stack = 0 then s1
                  else s1\<lparr>memory := memset_zero (memory s1) stack
                         ((TSTACK_SIZE cfg div PAGE_SIZE cfg) * PAGE_SIZE cfg)\<rparr>);
            s3 = upd_thread thrd (\<lambda>t. t\<lparr>tstack := stack\<rparr>) s2
        in case vmm_map_loop cfg (procs s3 proc) stack 0 of
             Inl e \<Rightarrow> Inl e
           | Inr maps \<Rightarrow>
               let s4 = s3\<lparr>events := events s3 @ maps\<rparr>
               in if stack = 0 then Inl Panic
                  else
                    let s5 = set_state_t thrd INITIAL s4;
                        s6 = set_block_t thrd NOTHING s5;
                        s7 = upd_thread thrd (\<lambda>t. t\<lparr>tid := nextid s6\<rparr>) s6;
                        s8 = s7\<lparr>nextid := nextid s7 + 1\<rparr>;
                        s9 = UNLOCK s8;
                        sp = stack + of_nat (KSTACK_SIZE cfg)
                               - of_nat (SIZEOF_CPU_CONTEXT cfg);
                        s10 = upd_thread thrd (\<lambda>t. t\<lparr>context_ptr := sp\<rparr>) s9;
                        s11 = s10\<lparr>memory := memset_zero (memory s10) sp
                                 (SIZEOF_CPU_CONTEXT cfg)\<rparr>
                    in Inr (thrd, s11))"

text \<open>
  \<open>thread_init\<close> and \<open>thread_create\<close>: the two registers of the saved context, the
  killed flag, READY under the lock, and \<open>vec_push\<close> onto the thread table of the
  process. Modelled from the spec: \<open>vec_push\<close> comes from a header that is not among
  the sources; it appends to the table.
\<close>

definition thread_init ::
  "thread_config \<Rightarrow> alloc_env \<Rightarrow> u64 \<Rightarrow> u64 \<Rightarrow> u64 \<Rightarrow> kstate \<Rightarrow> kerror + kstate" where
  "thread_init cfg env addr args proc s =
     (case alloc_new_thread cfg env proc s of
        Inl e \<Rightarrow> Inl e
      | Inr (thrd, s0) \<Rightarrow>
          (case threads s0 thrd of
             None \<Rightarrow> Inl BadPointer
           | Some t \<Rightarrow>
               let s1 = s0\<lparr>memory :=
                          store64 (memory s0) (context_ptr t + of_nat (RIP_OFFSET cfg)) addr\<rparr>;
                   s2 = s1\<lparr>memory :=
                          store64 (memory s1) (context_ptr t + of_nat (RDI_OFFSET cfg)) args\<rparr>;
                   s3 = upd_thread thrd (\<lambda>t. t\<lparr>killed := False\<rparr>) s2;
                   s4 = LOCK s3;
                   s5 = set_state_t thrd READY s4;
                   s6 = UNLOCK s5
               in (case procs s6 proc of
                     None \<Rightarrow> Inl BadPointer
                   | Some p \<Rightarrow>
                       Inr (s6\<lparr>procs :=
                              (procs s6)(proc \<mapsto> p\<lparr>ttable := ttable p @ [thrd]\<rparr>)\<rparr>))))"

definition thread_create ::
  "thread_config \<Rightarrow> alloc_env \<Rightarrow> u64 \<Rightarrow> u64 \<Rightarrow> kstate \<Rightarrow> kerror + kstate" where
  "thread_create cfg env addr args s =
     (case alloc_new_thread cfg env (running_proc s) s of
        Inl e \<Rightarrow> Inl e
      | Inr (thrd, s0) \<Rightarrow>
          (case threads s0 thrd of
             None \<Rightarrow> Inl BadPointer
           | Some t \<Rightarrow>
               let s1 = s0\<lparr>memory :=
                          store64 (memory s0) (context_ptr t + of_nat (RIP_OFFSET cfg)) addr\<rparr>;
                   s2 = s1\<lparr>memory :=
                          store64 (memory s1) (context_ptr t + of_nat (RDI_OFFSET cfg)) args\<rparr>;
                   s3 = upd_thread thrd (\<lambda>t. t\<lparr>killed := False\<rparr>) s2;
                   s4 = LOCK s3;
                   s5 = set_state_t thrd READY s4;
                   s6 = UNLOCK s5
               in (case procs s6 (running_proc s6) of
                     None \<Rightarrow> Inl BadPointer
                   | Some p \<Rightarrow>
                       Inr (s6\<lparr>procs :=
                              (procs s6)(running_proc s6 \<mapsto>
                                 p\<lparr>ttable := ttable p @ [thrd]\<rparr>)\<rparr>))))"

text \<open>
  The part the two have in common, after the allocation, on a thread and a process;
  the proofs go through it.
\<close>

definition prime_and_push ::
  "thread_config \<Rightarrow> u64 \<Rightarrow> u64 \<Rightarrow> u64 \<Rightarrow> u64 \<Rightarrow> kstate \<Rightarrow> kerror + kstate" where
  "prime_and_push cfg thrd addr args proc s =
     (case threads s thrd of
        None \<Rightarrow> Inl BadPointer
      | Some t \<Rightarrow>
          let s1 = s\<lparr>memory := store64 (memory s) (context_ptr t + of_nat (RIP_OFFSET cfg)) addr\<rparr>;
              s2 = s1\<lparr>memory := store64 (memory s1) (context_ptr t + of_nat (RDI_OFFSET cfg)) args\<rparr>;
              s3 = upd_thread thrd (\<lambda>t. t\<lparr>killed := False\<rparr>) s2;
              s4 = LOCK s3;
              s5 = set_state_t thrd READY s4;
              s6 = UNLOCK s5
          in (case procs s6 proc of
                None \<Rightarrow> Inl BadPointer
              | Some p \<Rightarrow>
                  Inr (s6\<lparr>procs := (procs s6)(proc \<mapsto> p\<lparr>ttable := ttable p @ [thrd]\<rparr>)\<rparr>)))"

subsection \<open>Blocking, unblocking, exit and sleep\<close>

definition thread_block :: "block_on \<Rightarrow> kstate \<Rightarrow> kerror + kstate" where
  "thread_block reason s =
     (let s1 = cli s;
          thrd = running_thrd s1
      in case threads s1 thrd of
           None \<Rightarrow> Inl BadPointer
         | Some t \<Rightarrow>
             Inr (yield_to_scheduler (set_state_t thrd BLOCKED (set_block_t thrd reason s1))))"

definition thread_unblock :: "u64 \<Rightarrow> kstate \<Rightarrow> kerror + kstate" where
  "thread_unblock thrd s =
     (let s1 = cli s
      in case threads s1 thrd of
           None \<Rightarrow> Inl BadPointer
         | Some t \<Rightarrow> Inr (set_state_t thrd READY (set_block_t thrd NOTHING s1)))"

text \<open>
  \<open>thread_exit\<close>. The comparison with \<open>ttable.data[0]\<close> reads the first slot of the
  table, which an empty table does not have. The return code is the stored return
  value converted to 8 bits.
\<close>

definition thread_exit :: "thread_config \<Rightarrow> u64 \<Rightarrow> kstate \<Rightarrow> kerror + kstate" where
  "thread_exit cfg rv s =
     (let thrd = running_thrd s
      in case threads s thrd of
           None \<Rightarrow> Inl BadPointer
         | Some t \<Rightarrow>
             (case (if state_t t = BLOCKED \<and> block_t t = ON_WAIT then thread_unblock thrd s
                    else Inr s) of
                Inl e \<Rightarrow> Inl e
              | Inr s1 \<Rightarrow>
                  let s2 = set_state_t thrd TERMINATED s1;
                      s3 = upd_thread thrd (\<lambda>t. t\<lparr>return_val := rv\<rparr>) s2;
                      s4 = event (PmmFree (tstack t) (TSTACK_SIZE cfg div PAGE_SIZE cfg)) s3
                  in (case procs s4 (running_proc s4) of
                        None \<Rightarrow> Inl BadPointer
                      | Some p \<Rightarrow>
                          (case ttable p of
                             [] \<Rightarrow> Inl OutOfRange
                           | first # rest \<Rightarrow>
                               let s5 = (if thrd = first then
                                           process_exit
                                             (s4\<lparr>procs := (procs s4)(running_proc s4 \<mapsto>
                                                    p\<lparr>return_code := ucast rv\<rparr>)\<rparr>)
                                         else s4)
                               in Inr (yield_to_scheduler s5)))))"

definition thread_sleep :: "u64 \<Rightarrow> kstate \<Rightarrow> kerror + kstate" where
  "thread_sleep sleep_ticks s =
     (let thrd = running_thrd s
      in case threads s thrd of
           None \<Rightarrow> Inl BadPointer
         | Some t \<Rightarrow>
             let curr_tick = timer_tick s;
                 targetick = curr_tick + sleep_ticks;
                 s1 = upd_thread thrd (\<lambda>t. t\<lparr>target_tick := targetick\<rparr>) s;
                 s2 = LOCK s1
             in (case thread_block ON_SLEEP s2 of
                   Inl e \<Rightarrow> Inl e
                 | Inr s3 \<Rightarrow> Inr (UNLOCK s3)))"

subsection \<open>Sequences of operations\<close>

text \<open>The operations of the file as values, to speak of every operation and of runs.\<close>

datatype kop =
    OpAlloc alloc_env u64
  | OpInit alloc_env u64 u64 u64
  | OpCreate alloc_env u64 u64
  | OpBlock block_on
  | OpUnblock u64
  | OpExit u64
  | OpSleep u64

fun exec_op :: "thread_config \<Rightarrow> kop \<Rightarrow> kstate \<Rightarrow> kerror + kstate" where
  "exec_op cfg (OpAlloc env proc) s = map_sum id snd (alloc_new_thread cfg env proc s)"
| "exec_op cfg (OpInit env addr args proc) s = thread_init cfg env addr args proc s"
| "exec_op cfg (OpCreate env addr args) s = thread_create cfg env addr args s"
| "exec_op cfg (OpBlock reason) s = thread_block reason s"
| "exec_op cfg (OpUnblock thrd) s = thread_unblock thrd s"
| "exec_op cfg (OpExit rv) s = thread_exit cfg rv s"
| "exec_op cfg (OpSleep n) s = thread_sleep n s"

fun is_exit :: "kop \<Rightarrow> bool" where
  "is_exit (OpExit rv) = True"
| "is_exit _ = False"

text \<open>The id an operation assigned, read from the thread it allocated.\<close>

fun allocated :: "kop \<Rightarrow> u64 option" where
  "allocated (OpAlloc env proc) = Some (kmalloc_result env)"
| "allocated (OpInit env addr args proc) = Some (kmalloc_result env)"
| "allocated (OpCreate env addr args) = Some (kmalloc_result env)"
| "allocated _ = None"

definition assigned_id :: "kop \<Rightarrow> kstate \<Rightarrow> u32 list" where
  "assigned_id op s =
     (case allocated op of
        None \<Rightarrow> []
      | Some p \<Rightarrow> (case threads s p of None \<Rightarrow> [] | Some t \<Rightarrow> [tid t]))"

text \<open>A run: the ids assigned, in allocation order, and the final state.\<close>

fun run_ops :: "thread_config \<Rightarrow> kop list \<Rightarrow> kstate \<Rightarrow> kerror + (u32 list \<times> kstate)" where
  "run_ops cfg [] s = Inr ([], s)"
| "run_ops cfg (op # ops) s =
     (case exec_op cfg op s of
        Inl e \<Rightarrow> Inl e
      | Inr s1 \<Rightarrow>
          (case run_ops cfg ops s1 of
             Inl e \<Rightarrow> Inl e
           | Inr (ids, s2) \<Rightarrow> Inr (assigned_id op s1 @ ids, s2)))"

definition run_ids :: "thread_config \<Rightarrow> kop list \<Rightarrow> kstate \<Rightarrow> u32 list option" where
  "run_ids cfg ops s = (case run_ops cfg ops s of Inl e \<Rightarrow> None | Inr (ids, s') \<Rightarrow> Some ids)"

text \<open>
  The lock discipline on a list of events: every write to a state or block-reason
  field comes while the lock is held, starting from the given lock status.
\<close>

fun writes_locked :: "bool \<Rightarrow> kevent list \<Rightarrow> bool" where
  "writes_locked held [] = True"
| "writes_locked held (Lock # es) = writes_locked True es"
| "writes_locked held (Unlock # es) = writes_locked False es"
| "writes_locked held (WriteState p v # es) = (held \<and> writes_locked held es)"
| "writes_locked held (WriteBlock p v # es) = (held \<and> writes_locked held es)"
| "writes_locked held (e # es) = writes_locked held es"

text \<open>The events an operation added, and whether they keep the discipline.\<close>

definition new_events :: "kstate \<Rightarrow> kstate \<Rightarrow> kevent list" where
  "new_events s s' = drop (length (events s)) (events s')"

definition op_locked :: "thread_config \<Rightarrow> kop \<Rightarrow> kstate \<Rightarrow> bool option" where
  "op_locked cfg op s =
     (case exec_op cfg op s of
        Inl e \<Rightarrow> None
      | Inr s' \<Rightarrow> Some (writes_locked (thread_lock s) (new_events s s')))"

text \<open>The return code of a process, if the process exists.\<close>

definition return_code_of :: "kstate \<Rightarrow> u64 \<Rightarrow> u8 option" where
  "return_code_of s q = map_option return_code (procs s q)"

subsection \<open>Concrete inputs\<close>

text \<open>
  A configuration with 32 KiB stacks and 4 KiB pages; a process at \<open>0x2000\<close> whose thread
  table holds the threads at \<open>0x1000\<close> (the main thread) and \<open>0x1100\<close>; the state right after
  boot with that process and no thread; and what the allocators return for one more
  thread, and for another.
\<close>

definition tcfg0 :: thread_config where
  "tcfg0 = \<lparr>TSTACK_SIZE = 32768, KSTACK_SIZE = 32768, PAGE_SIZE = 4096,
     SIZEOF_CPU_CONTEXT = 160, RIP_OFFSET = 128, RDI_OFFSET = 48\<rparr>"

definition thread0 :: thread where
  "thread0 = \<lparr>tid = 1, state_t = RUNNING, block_t = NOTHING, tstack = 0x100000,
     context_ptr = 0x107F60, killed = False, return_val = 0, target_tick = 0\<rparr>"

definition thread1 :: thread where
  "thread1 = \<lparr>tid = 2, state_t = RUNNING, block_t = NOTHING, tstack = 0x108000,
     context_ptr = 0x10FF60, killed = False, return_val = 0, target_tick = 0\<rparr>"

definition proc0 :: process where
  "proc0 = \<lparr>ttable = [0x1000, 0x1100], return_code = 0, ppagemap = 0x3000,
     current_top_addr = 0x70000000\<rparr>"

definition k_main :: kstate where
  "k_main = \<lparr>nextid = 3, thread_lock = False, interrupts = True,
     threads = [0x1000 \<mapsto> thread0, 0x1100 \<mapsto> thread1], procs = [0x2000 \<mapsto> proc0],
     memory = (\<lambda>_. 0xAA), running_thrd = 0x1000, running_proc = 0x2000,
     timer_tick = 500, events = []\<rparr>"

definition k_second :: kstate where
  "k_second = k_main\<lparr>running_thrd := 0x1100\<rparr>"

definition k_boot :: kstate where
  "k_boot = \<lparr>nextid = 1, thread_lock = False, interrupts = True,
     threads = Map.empty, procs = [0x2000 \<mapsto> proc0\<lparr>ttable := []\<rparr>],
     memory = (\<lambda>_. 0xAA), running_thrd = 0, running_proc = 0x2000,
     timer_tick = 0, events = []\<rparr>"

definition env0 :: alloc_env where
  "env0 = \<lparr>kmalloc_result = 0x1200,
     kmalloc_content = \<lparr>tid = 0xDEAD, state_t = TERMINATED, block_t = ON_WAIT,
       tstack = 0x55, context_ptr = 0x66, killed = True, return_val = 0x77, target_tick = 0x88\<rparr>,
     pmm_allocz_result = 0x110000\<rparr>"

definition env1 :: alloc_env where
  "env1 = env0\<lparr>kmalloc_result := 0x1300, pmm_allocz_result := 0x118000\<rparr>"



section \<open>Results on the PCI access layer\<close>

subsection \<open>Byte stores\<close>

lemma u16_bytes:
  "(ucast (ucast v :: u8) :: u16) OR push_bit 8 (ucast (ucast (drop_bit 8 v) :: u8)) = v"
  by (rule bit_word_eqI) (auto simp: bit_simps)

lemma u32_bytes:
  "(ucast (ucast v :: u8) :: u32) OR push_bit 8 (ucast (ucast (drop_bit 8 v) :: u8))
     OR push_bit 16 (ucast (ucast (drop_bit 16 v) :: u8))
     OR push_bit 24 (ucast (ucast (drop_bit 24 v) :: u8)) = v"
proof (rule bit_word_eqI)
  fix n :: nat
  consider "n < 8" | "8 \<le> n" "n < 16" | "16 \<le> n" "n < 24" | "24 \<le> n"
    by linarith
  then show "bit ((ucast (ucast v :: u8) :: u32) OR push_bit 8 (ucast (ucast (drop_bit 8 v) :: u8))
     OR push_bit 16 (ucast (ucast (drop_bit 16 v) :: u8))
     OR push_bit 24 (ucast (ucast (drop_bit 24 v) :: u8))) n = bit v n"
    by cases (auto simp: bit_simps dest: bit_imp_le_length)
qed

lemma load16_store16_port: "load16 (store16 m (a::u16) v) a = v"
  using u16_bytes [of v] by (simp add: load16_def store16_def)

lemma load16_store16_mem: "load16 (store16 m (a::u64) v) a = v"
  using u16_bytes [of v] by (simp add: load16_def store16_def)

lemma load32_store32_port: "load32 (store32 m (a::u16) v) a = v"
  using u32_bytes [of v] by (simp add: load32_def store32_def)

lemma load32_store32_mem: "load32 (store32 m (a::u64) v) a = v"
  using u32_bytes [of v] by (simp add: load32_def store32_def)

subsection \<open>Helper facts\<close>

lemmas port_defs = port_byte_out_def port_word_out_def port_dword_out_def
  port_byte_in_def port_word_in_def port_dword_in_def emit_def
lemmas mm_defs = mmoutb_def mmoutw_def mmoutd_def mminb_def mminw_def mmind_def emit_def

lemma fold_push_entries: "fold (\<lambda>i v. v @ [f i]) [0..<n] acc = acc @ map f [0..<n]"
  by (induction n arbitrary: acc) simp_all

lemma device_offset_low: "take_bit 12 (device_offset bus start slot f) = 0"
  unfolding device_offset_def
  by (rule bit_word_eqI) (auto simp: bit_simps)

lemma aligned_no_overlap:
  assumes "take_bit 12 (base e) = 0" and "off < 0x1000"
  shows "(base e + device_offset bus (start_bus_number e) slot f) AND ucast (off::u16) = 0"
proof -
  let ?x = "base e + device_offset bus (start_bus_number e) slot f"
  have b: "base e = push_bit 12 (drop_bit 12 (base e))"
    using bits_ident [of 12 "base e"] assms(1) by simp
  have d: "device_offset bus (start_bus_number e) slot f
             = push_bit 12 (drop_bit 12 (device_offset bus (start_bus_number e) slot f))"
    using bits_ident [of 12 "device_offset bus (start_bus_number e) slot f"]
    by (simp add: device_offset_low)
  have "?x = push_bit 12 (drop_bit 12 (base e)
                + drop_bit 12 (device_offset bus (start_bus_number e) slot f))"
    by (subst b, subst d) (simp only: push_bit_add)
  then have "take_bit 12 ?x = 0"
    by (simp only: take_bit_push_bit) simp
  then have x: "?x AND mask 12 = 0"
    by (simp add: take_bit_eq_mask)
  have m: "off AND mask 12 = off"
    using assms(2) by (intro less_mask_eq) simp
  have "(ucast off :: u64) = ucast (off AND mask 12)"
    by (simp add: m)
  also have "\<dots> = mask 12 AND ucast off"
    by (rule bit_word_eqI) (auto simp: bit_simps)
  finally have o: "(ucast off :: u64) = mask 12 AND ucast off" .
  have "?x AND ucast off = ?x AND (mask 12 AND ucast off)"
    using o by simp
  also have "\<dots> = (?x AND mask 12) AND ucast off"
    by (simp only: and.assoc)
  finally show ?thesis using x by simp
qed

lemma same_address:
  "(base e + device_offset bus (start_bus_number e) slot f) AND ucast off = 0 \<Longrightarrow>
     mcfg_read_addr cfg e bus slot f off = mcfg_write_addr cfg e bus slot f off"
  by (simp add: mcfg_read_addr_def mcfg_write_addr_def disjunctive_add_eq_or)

lemma write_scan_found:
  "find (entry_matches sg bus) es = Some e \<Longrightarrow>
     mcfg_write_scan cfg es sg bus slot f off v sz s =
       (let addr = mcfg_write_addr cfg e bus slot f off
        in if sz = 1 then mmoutb addr (ucast v) s
           else if sz = 2 then mmoutw addr (ucast v) s
           else if sz = 4 then mmoutd addr v s
           else emit (UnknownAccessSize sz) s)"
  by (induction es) (auto simp: Let_def)

lemma read_scan_found:
  "find (entry_matches sg bus) es = Some e \<Longrightarrow> sz \<in> {1, 2, 4} \<Longrightarrow>
     mcfg_read_scan cfg es sg bus slot f off sz s =
       (let addr = mcfg_read_addr cfg e bus slot f off
        in if sz = 1 then (let (v, s1) = mminb addr s in (ucast v, s1))
           else if sz = 2 then (let (v, s1) = mminw addr s in (ucast v, s1))
           else mmind addr s)"
  by (induction es) (auto simp: Let_def)

lemma write_scan_none:
  "find (entry_matches sg bus) es = None \<Longrightarrow>
     mcfg_write_scan cfg es sg bus slot f off v sz s = emit (NonexistentWrite sg bus slot f) s"
  by (induction es) (auto simp: Let_def)

lemma read_scan_none:
  "find (entry_matches sg bus) es = None \<Longrightarrow>
     mcfg_read_scan cfg es sg bus slot f off sz s = (0, emit (NonexistentRead sg bus slot f) s)"
  by (induction es) (auto simp: Let_def)

lemma read_scan_bad_size:
  "sz \<notin> {1, 2, 4} \<Longrightarrow>
     \<exists>ds. ds \<noteq> [] \<and> list_all diagnostic ds
       \<and> mcfg_read_scan cfg es sg bus slot f off sz s = (0, s\<lparr>trace := trace s @ ds\<rparr>)"
proof (induction es arbitrary: s)
  case Nil
  show ?case
    by (rule exI [of _ "[NonexistentRead sg bus slot f]"]) (simp add: emit_def)
next
  case (Cons e es)
  show ?case
  proof (cases "entry_matches sg bus e")
    case False
    with Cons show ?thesis by simp
  next
    case True
    from Cons.IH [OF Cons.prems, of "emit (UnknownAccessSize sz) s"]
    obtain ds where ds: "list_all diagnostic ds"
      "mcfg_read_scan cfg es sg bus slot f off sz (emit (UnknownAccessSize sz) s)
         = (0, emit (UnknownAccessSize sz) s\<lparr>trace := trace (emit (UnknownAccessSize sz) s) @ ds\<rparr>)"
      by blast
    show ?thesis
      using True Cons.prems ds
      by (intro exI [of _ "UnknownAccessSize sz # ds"]) (simp add: emit_def)
  qed
qed

lemma write_scan_bad_size:
  "sz \<notin> {1, 2, 4} \<Longrightarrow>
     \<exists>ds. ds \<noteq> [] \<and> list_all diagnostic ds
       \<and> mcfg_write_scan cfg es sg bus slot f off v sz s = s\<lparr>trace := trace s @ ds\<rparr>"
proof (induction es)
  case Nil
  show ?case
    by (rule exI [of _ "[NonexistentWrite sg bus slot f]"]) (simp add: emit_def)
next
  case (Cons e es)
  show ?case
  proof (cases "entry_matches sg bus e")
    case False
    with Cons show ?thesis by simp
  next
    case True
    then show ?thesis
      using Cons.prems
      by (intro exI [of _ "[UnknownAccessSize sz]"]) (simp add: emit_def)
  qed
qed

lemma and3_cases: "(x::u16) AND 3 \<in> {0, 1, 2, 3}"
proof -
  have "unat (x AND 3) \<le> 3"
    using word_and_le1 [of x 3] by (simp add: word_le_nat_alt)
  then consider "unat (x AND 3) = 0" | "unat (x AND 3) = 1"
    | "unat (x AND 3) = 2" | "unat (x AND 3) = 3"
    by linarith
  then show ?thesis
    by cases (simp_all add: word_unat_eq_iff)
qed

lemma and2_cases: "(x::u16) AND 2 \<in> {0, 2}"
proof -
  have "x AND 2 = push_bit 1 (of_bool (bit x 1))"
    by (rule bit_word_eqI) (auto simp: bit_simps numeral_eq_Suc bit_Suc elim: less_SucE)
  then show ?thesis
    by (cases "bit x 1") simp_all
qed

lemma address_port_frame:
  "p \<in> {0xCFC, 0xCFD, 0xCFE, 0xCFF} \<Longrightarrow> store32 m (0xCF8::u16) a p = m p"
  by (auto simp: store32_def)

lemma ucast_u8: "(ucast (ucast (v::u32) :: u8) :: u32) = take_bit 8 v"
  by (rule bit_word_eqI) (auto simp: bit_simps)

lemma ucast_u16: "(ucast (ucast (v::u32) :: u16) :: u32) = take_bit 16 v"
  by (rule bit_word_eqI) (auto simp: bit_simps)

lemma legacy_roundtrip:
  assumes "sz \<in> {1, 2, 4}"
  shows "fst (legacy_pci_read sg bus slot f off sz (legacy_pci_write sg bus slot f off v sz s))
           = take_bit (8 * unat sz) v"
proof -
  consider "sz = 1" | "sz = 2" | "sz = 4" using assms by auto
  then show ?thesis
  proof cases
    case 1
    then show ?thesis
      using and3_cases [of off]
      by (auto simp: legacy_pci_read_def legacy_pci_write_def port_defs Let_def
            address_port_frame ucast_u8)
  next
    case 2
    then show ?thesis
      using and2_cases [of off]
      by (auto simp: legacy_pci_read_def legacy_pci_write_def port_defs Let_def
            load16_def address_port_frame)
         (simp_all add: store16_def u16_bytes ucast_u16)
  next
    case 3
    then show ?thesis
      by (simp add: legacy_pci_read_def legacy_pci_write_def port_defs Let_def
            load32_def address_port_frame)
         (simp add: store32_def u32_bytes take_bit_word_eq_self)
  qed
qed

lemma mcfg_roundtrip:
  assumes "sz \<in> {1, 2, 4}"
    and "find (entry_matches sg bus) (mcfg_entries s) = Some e"
    and "(base e + device_offset bus (start_bus_number e) slot f) AND ucast off = 0"
  shows "fst (mcfg_pci_read cfg sg bus slot f off sz (mcfg_pci_write cfg sg bus slot f off v sz s))
           = take_bit (8 * unat sz) v"
proof -
  let ?a = "mcfg_write_addr cfg e bus slot f off"
  have ra: "mcfg_read_addr cfg e bus slot f off = ?a"
    using assms(3) by (rule same_address)
  consider "sz = 1" | "sz = 2" | "sz = 4" using assms(1) by auto
  then show ?thesis
  proof cases
    case 1
    then show ?thesis
      using assms(2)
      by (simp add: mcfg_pci_read_def mcfg_pci_write_def write_scan_found read_scan_found ra
            mm_defs ucast_u8 Let_def)
  next
    case 2
    then show ?thesis
      using assms(2)
      by (simp add: mcfg_pci_read_def mcfg_pci_write_def write_scan_found read_scan_found ra
            mm_defs ucast_u16 load16_store16_mem Let_def)
  next
    case 3
    then show ?thesis
      using assms(2)
      by (simp add: mcfg_pci_read_def mcfg_pci_write_def write_scan_found read_scan_found ra
            mm_defs load32_store32_mem take_bit_word_eq_self Let_def)
  qed
qed

lemma legacy_write_keeps:
  "internal_read (legacy_pci_write sg bus slot f off v sz s) = internal_read s
   \<and> internal_write (legacy_pci_write sg bus slot f off v sz s) = internal_write s
   \<and> mcfg_entries (legacy_pci_write sg bus slot f off v sz s) = mcfg_entries s"
  by (simp add: legacy_pci_write_def port_defs Let_def)

lemma legacy_read_keeps:
  "internal_read (snd (legacy_pci_read sg bus slot f off sz s)) = internal_read s
   \<and> internal_write (snd (legacy_pci_read sg bus slot f off sz s)) = internal_write s
   \<and> mcfg_entries (snd (legacy_pci_read sg bus slot f off sz s)) = mcfg_entries s"
  by (simp add: legacy_pci_read_def port_defs Let_def)

lemma write_scan_keeps:
  "internal_read (mcfg_write_scan cfg es sg bus slot f off v sz s) = internal_read s
   \<and> internal_write (mcfg_write_scan cfg es sg bus slot f off v sz s) = internal_write s
   \<and> mcfg_entries (mcfg_write_scan cfg es sg bus slot f off v sz s) = mcfg_entries s"
  by (induction es) (simp_all add: mm_defs Let_def)

lemma read_scan_keeps:
  "internal_read (snd (mcfg_read_scan cfg es sg bus slot f off sz s)) = internal_read s
   \<and> internal_write (snd (mcfg_read_scan cfg es sg bus slot f off sz s)) = internal_write s
   \<and> mcfg_entries (snd (mcfg_read_scan cfg es sg bus slot f off sz s)) = mcfg_entries s"
  by (induction es arbitrary: s) (simp_all add: mm_defs Let_def)

lemma pci_write_keeps:
  "pci_write cfg sg bus slot f off v sz s = Inr s' \<Longrightarrow>
     internal_read s' = internal_read s \<and> internal_write s' = internal_write s
       \<and> mcfg_entries s' = mcfg_entries s"
  using legacy_write_keeps [of sg bus slot f off v sz s]
    write_scan_keeps [of cfg "mcfg_entries s" sg bus slot f off v sz s]
  by (auto simp: pci_write_def mcfg_pci_write_def split: accessor.splits)

lemma pci_read_keeps:
  "pci_read cfg sg bus slot f off sz s = Inr (r, s') \<Longrightarrow>
     internal_read s' = internal_read s \<and> internal_write s' = internal_write s
       \<and> mcfg_entries s' = mcfg_entries s"
  using legacy_read_keeps [of sg bus slot f off sz s]
    read_scan_keeps [of cfg "mcfg_entries s" sg bus slot f off sz s]
  by (auto simp: pci_read_def mcfg_pci_read_def split: accessor.splits)

lemma pci_calls_keep:
  "pci_calls cfg cs s = Inr s' \<Longrightarrow>
     internal_read s' = internal_read s \<and> internal_write s' = internal_write s
       \<and> mcfg_entries s' = mcfg_entries s"
proof (induction cfg cs s rule: pci_calls.induct)
  case (1 cfg s)
  then show ?case by simp
next
  case (2 cfg sg bus slot fn offset access_size cs s)
  then show ?case
    by (auto split: sum.splits dest: pci_read_keeps)
next
  case (3 cfg sg bus slot fn offset val access_size cs s)
  then show ?case
    by (auto split: sum.splits dest: pci_write_keeps)
qed

lemma pci_calls_return:
  "internal_read s \<noteq> Unset \<Longrightarrow> internal_write s \<noteq> Unset \<Longrightarrow> \<exists>s'. pci_calls cfg cs s = Inr s'"
proof (induction cfg cs s rule: pci_calls.induct)
  case (1 cfg s)
  then show ?case by simp
next
  case (2 cfg sg bus slot fn offset access_size cs s)
  obtain r s1 where r: "pci_read cfg sg bus slot fn offset access_size s = Inr (r, s1)"
    using "2.prems"(1) by (cases "internal_read s") (auto simp: pci_read_def intro: prod.exhaust)
  with pci_read_keeps [OF r] "2.prems" "2.IH" [of "(r, s1)" r s1]
  show ?case by simp
next
  case (3 cfg sg bus slot fn offset val access_size cs s)
  obtain s1 where r: "pci_write cfg sg bus slot fn offset val access_size s = Inr s1"
    using "3.prems"(2) by (cases "internal_write s") (auto simp: pci_write_def)
  with pci_write_keeps [OF r] "3.prems" "3.IH" [of s1]
  show ?case by simp
qed

lemma cfg0_simps:
  "SIZEOF_MCFG cfg0 = 44" "SIZEOF_MCFG_ENTRY cfg0 = 16" "MEM_PHYS_OFFSET cfg0 = 0xFFFF800000000000"
  by (simp_all add: cfg0_def)

lemma init_legacy: "pci_init cfg0 None pci_boot = pci_boot\<lparr>internal_read := Legacy, internal_write := Legacy\<rparr>"
  by (simp add: pci_init_def)

lemma init_mcfg: "pci_init cfg0 (Some table0) pci_boot
  = pci_boot\<lparr>mcfg_entries := [entry0], internal_read := Mcfg, internal_write := Mcfg\<rparr>"
  by (simp add: pci_init_def cfg0_simps table0_def)

subsection \<open>Ports used by the legacy strategy\<close>

text \<open>
  Claim C2, as the code has it. For every offset and every supported access size, the
  legacy strategy first writes the encoded address to port \<open>0xCF8\<close> and then makes
  exactly one data-port access: a byte access at \<open>0xCFC + (offset & 3)\<close> for size 1, a
  word access at \<open>0xCFC + (offset & 2)\<close> for size 2, and a doubleword access at \<open>0xCFC\<close>
  for size 4, on the read path and on the write path alike.
\<close>

theorem legacy_data_port:
  "trace (snd (legacy_pci_read sg bus slot f off 1 s)) =
     trace s @ [PortDwordOut 0xCF8 (make_pci_address (ucast bus) (ucast slot) (ucast f) off),
                PortByteIn (0xCFC + (off AND 3))]
   \<and> trace (snd (legacy_pci_read sg bus slot f off 2 s)) =
     trace s @ [PortDwordOut 0xCF8 (make_pci_address (ucast bus) (ucast slot) (ucast f) off),
                PortWordIn (0xCFC + (off AND 2))]
   \<and> trace (snd (legacy_pci_read sg bus slot f off 4 s)) =
     trace s @ [PortDwordOut 0xCF8 (make_pci_address (ucast bus) (ucast slot) (ucast f) off),
                PortDwordIn 0xCFC]
   \<and> trace (legacy_pci_write sg bus slot f off v 1 s) =
     trace s @ [PortDwordOut 0xCF8 (make_pci_address (ucast bus) (ucast slot) (ucast f) off),
                PortByteOut (0xCFC + (off AND 3)) (ucast v)]
   \<and> trace (legacy_pci_write sg bus slot f off v 2 s) =
     trace s @ [PortDwordOut 0xCF8 (make_pci_address (ucast bus) (ucast slot) (ucast f) off),
                PortWordOut (0xCFC + (off AND 2)) (ucast v)]
   \<and> trace (legacy_pci_write sg bus slot f off v 4 s) =
     trace s @ [PortDwordOut 0xCF8 (make_pci_address (ucast bus) (ucast slot) (ucast f) off),
                PortDwordOut 0xCFC v]"
  by (simp add: legacy_pci_read_def legacy_pci_write_def port_defs Let_def)

text \<open>
  The formula \<open>offset & (size - 1)\<close> gives other ports. At offset 1 the code reads a byte
  at \<open>0xCFD\<close>, a word at \<open>0xCFC\<close> and a doubleword at \<open>0xCFC\<close>, where the formula gives
  \<open>0xCFC\<close>, \<open>0xCFD\<close> and \<open>0xCFD\<close>.
\<close>

theorem legacy_data_port_counterexample:
  "trace (snd (legacy_pci_read 0 0 0 0 1 1 pci_boot))
     = [PortDwordOut 0xCF8 0x80000000, PortByteIn 0xCFD]
   \<and> spec_data_port 1 1 = 0xCFC
   \<and> trace (snd (legacy_pci_read 0 0 0 0 1 2 pci_boot))
     = [PortDwordOut 0xCF8 0x80000000, PortWordIn 0xCFC]
   \<and> spec_data_port 1 2 = 0xCFD
   \<and> trace (snd (legacy_pci_read 0 0 0 0 1 4 pci_boot))
     = [PortDwordOut 0xCF8 0x80000000, PortDwordIn 0xCFC]
   \<and> spec_data_port 1 4 = 0xCFD"
  by (simp add: legacy_pci_read_def port_defs Let_def pci_boot_def spec_data_port_def
        make_pci_address_def)

subsection \<open>Write, then read\<close>

text \<open>
  Claim C3, as the code has it. Let the access size be 1, 2 or 4 and let both function
  pointers hold the same strategy. Under the legacy strategy, \<open>pci_write\<close> followed by
  \<open>pci_read\<close> with the same arguments returns the written value cut to the access
  size. Under the memory-mapped strategy the same holds when some entry matches the
  segment and bus and the register offset shares no set bit with the device address
  of the first matching entry; then the read path and the write path compute the same
  target address. A base whose low 12 bits are zero together with an offset below
  \<open>0x1000\<close> is such a case.
\<close>

theorem write_then_read_returns:
  assumes "sz \<in> {1, 2, 4}" and "internal_write s = internal_read s"
  shows "(internal_read s = Legacy \<longrightarrow>
            write_then_read cfg sg bus slot f off v sz s = Inr (take_bit (8 * unat sz) v))
       \<and> (internal_read s = Mcfg
            \<and> find (entry_matches sg bus) (mcfg_entries s) = Some e
            \<and> (base e + device_offset bus (start_bus_number e) slot f) AND ucast off = 0 \<longrightarrow>
              mcfg_read_addr cfg e bus slot f off = mcfg_write_addr cfg e bus slot f off
            \<and> write_then_read cfg sg bus slot f off v sz s = Inr (take_bit (8 * unat sz) v))
       \<and> (take_bit 12 (base e) = 0 \<and> off < 0x1000 \<longrightarrow>
            (base e + device_offset bus (start_bus_number e) slot f) AND ucast off = 0)"
proof (intro conjI impI)
  assume l: "internal_read s = Legacy"
  have "pci_read cfg sg bus slot f off sz (legacy_pci_write sg bus slot f off v sz s)
          = Inr (legacy_pci_read sg bus slot f off sz (legacy_pci_write sg bus slot f off v sz s))"
    using l legacy_write_keeps [of sg bus slot f off v sz s] by (simp add: pci_read_def)
  then show "write_then_read cfg sg bus slot f off v sz s = Inr (take_bit (8 * unat sz) v)"
    using l assms legacy_roundtrip [OF assms(1), of sg bus slot f off v s]
    by (auto simp: write_then_read_def pci_write_def split: prod.splits)
next
  assume m: "internal_read s = Mcfg
            \<and> find (entry_matches sg bus) (mcfg_entries s) = Some e
            \<and> (base e + device_offset bus (start_bus_number e) slot f) AND ucast off = 0"
  then show "mcfg_read_addr cfg e bus slot f off = mcfg_write_addr cfg e bus slot f off"
    by (simp add: same_address)
  have "pci_read cfg sg bus slot f off sz (mcfg_pci_write cfg sg bus slot f off v sz s)
          = Inr (mcfg_pci_read cfg sg bus slot f off sz (mcfg_pci_write cfg sg bus slot f off v sz s))"
    using m write_scan_keeps [of cfg "mcfg_entries s" sg bus slot f off v sz s]
    by (simp add: pci_read_def mcfg_pci_write_def)
  then show "write_then_read cfg sg bus slot f off v sz s = Inr (take_bit (8 * unat sz) v)"
    using m assms mcfg_roundtrip [OF assms(1), of sg bus s e slot f off cfg v]
    by (auto simp: write_then_read_def pci_write_def split: prod.splits)
next
  assume "take_bit 12 (base e) = 0 \<and> off < 0x1000"
  then show "(base e + device_offset bus (start_bus_number e) slot f) AND ucast off = 0"
    by (simp add: aligned_no_overlap)
qed

theorem write_then_read_returns_witness:
  "write_then_read cfg0 0 0 3 1 0x10 0x12345678 2 (pci_init cfg0 None pci_boot) = Inr 0x5678
   \<and> write_then_read cfg0 0 0 3 1 0x10 0x12345678 2 (pci_init cfg0 (Some table0) pci_boot) = Inr 0x5678
   \<and> mcfg_read_addr cfg0 entry0 0 3 1 0x10 = mcfg_write_addr cfg0 entry0 0 3 1 0x10"
proof -
  have a: "(2::u8) \<in> {1, 2, 4}" by simp
  have l: "internal_write (pci_init cfg0 None pci_boot) = internal_read (pci_init cfg0 None pci_boot)"
    "internal_read (pci_init cfg0 None pci_boot) = Legacy"
    by (simp_all add: init_legacy)
  have m: "internal_write (pci_init cfg0 (Some table0) pci_boot) = internal_read (pci_init cfg0 (Some table0) pci_boot)"
    "internal_read (pci_init cfg0 (Some table0) pci_boot) = Mcfg"
    "find (entry_matches 0 0) (mcfg_entries (pci_init cfg0 (Some table0) pci_boot)) = Some entry0"
    by (simp_all add: init_mcfg entry_matches_def entry0_def)
  have al: "take_bit 12 (base entry0) = 0 \<and> (0x10::u16) < 0x1000"
    by (simp add: entry0_def)
  have t: "take_bit (8 * unat (2::u8)) (0x12345678::u32) = 0x5678"
    by simp
  from write_then_read_returns [OF a l(1), of cfg0 0 0 3 1 "0x10" "0x12345678" entry0]
    write_then_read_returns [OF a m(1), of cfg0 0 0 3 1 "0x10" "0x12345678" entry0]
  show ?thesis
    using l(2) m(2,3) al t by simp
qed

text \<open>
  Where the claim fails as stated. With function 1 and offset \<open>0x1000\<close> the read path
  (\<open>|\<close>) and the write path (\<open>+\<close>) address different bytes, and the value written is not
  read back. A value wider than the access size comes back cut. With no entry for the
  segment the write does nothing and the read returns 0.
\<close>

theorem write_then_read_counterexample:
  "write_then_read cfg0 0 0 0 1 0x1000 0xAB 1 (pci_init cfg0 (Some table0) pci_boot) = Inr 0
   \<and> mcfg_read_addr cfg0 entry0 0 0 1 0x1000 = 0xFFFF800000001000
   \<and> mcfg_write_addr cfg0 entry0 0 0 1 0x1000 = 0xFFFF800000002000
   \<and> write_then_read cfg0 0 0 0 0 0 0x1FF 1 (pci_init cfg0 None pci_boot) = Inr 0xFF
   \<and> write_then_read cfg0 1 0 0 0 0 0xAB 1 (pci_init cfg0 (Some table0) pci_boot) = Inr 0"
  unfolding init_legacy init_mcfg
  by (simp add: write_then_read_def pci_write_def pci_read_def
        mcfg_pci_write_def mcfg_pci_read_def legacy_pci_read_def legacy_pci_write_def
        entry_matches_def entry0_def cfg0_simps pci_boot_def mmoutb_def mminb_def port_defs Let_def
        mcfg_read_addr_def mcfg_write_addr_def device_offset_def store32_def make_pci_address_def)

subsection \<open>The segment under the legacy strategy\<close>

text \<open>
  Claim C10. Under the legacy strategy the segment argument has no influence: two
  reads, or two writes, that differ only in the segment produce the same result and
  the same final state, which holds the port contents and the trace of port operations.
\<close>

theorem legacy_ignores_segment:
  "legacy_pci_read sg bus slot f off sz s = legacy_pci_read sg' bus slot f off sz s
   \<and> legacy_pci_write sg bus slot f off v sz s = legacy_pci_write sg' bus slot f off v sz s
   \<and> (internal_read s = Legacy \<longrightarrow>
        pci_read cfg sg bus slot f off sz s = pci_read cfg sg' bus slot f off sz s)
   \<and> (internal_write s = Legacy \<longrightarrow>
        pci_write cfg sg bus slot f off v sz s = pci_write cfg sg' bus slot f off v sz s)"
  by (simp add: legacy_pci_read_def legacy_pci_write_def pci_read_def pci_write_def)

theorem legacy_ignores_segment_witness:
  "internal_read (pci_init cfg0 None pci_boot) = Legacy
   \<and> internal_write (pci_init cfg0 None pci_boot) = Legacy
   \<and> pci_read cfg0 1 0 3 0 4 2 (pci_init cfg0 None pci_boot)
       = pci_read cfg0 7 0 3 0 4 2 (pci_init cfg0 None pci_boot)
   \<and> pci_write cfg0 1 0 3 0 4 0xBEEF 2 (pci_init cfg0 None pci_boot)
       = pci_write cfg0 7 0 3 0 4 0xBEEF 2 (pci_init cfg0 None pci_boot)"
  using legacy_ignores_segment [of 1 0 3 0 4 2 "pci_init cfg0 None pci_boot" 7 "0xBEEF" cfg0]
  by (simp add: pci_init_def)

subsection \<open>Selection of the strategy\<close>

text \<open>
  Claim C6. \<open>pci_init\<close> sets both function pointers to the legacy strategy exactly when
  the firmware table is absent or its header length is smaller than the fixed part plus
  one entry. Otherwise it sets both to the memory-mapped strategy and loads the entries
  \<open>0\<close> to \<open>(length - sizeof(struct mcfg)) / sizeof(struct mcfg_entry) - 1\<close> of the table, in
  order. After any sequence of \<open>pci_read\<close> and \<open>pci_write\<close> calls the pointers and the loaded
  entries are as \<open>pci_init\<close> left them, every such sequence returns, and \<open>pci_read\<close> and
  \<open>pci_write\<close> run the strategy that was selected.
\<close>

theorem pci_init_selection:
  "(internal_read (pci_init cfg tbl s) = Legacy \<longleftrightarrow> no_usable_entries cfg tbl)
   \<and> (internal_write (pci_init cfg tbl s) = Legacy \<longleftrightarrow> no_usable_entries cfg tbl)
   \<and> (\<not> no_usable_entries cfg tbl \<longrightarrow>
         internal_read (pci_init cfg tbl s) = Mcfg \<and> internal_write (pci_init cfg tbl s) = Mcfg
         \<and> (\<forall>t. tbl = Some t \<longrightarrow>
               mcfg_entries (pci_init cfg tbl s) =
                 map (entries t)
                   [0..<(unat (header_length t) - SIZEOF_MCFG cfg) div SIZEOF_MCFG_ENTRY cfg]))
   \<and> (\<forall>cs s'. pci_calls cfg cs (pci_init cfg tbl s) = Inr s' \<longrightarrow>
         internal_read s' = internal_read (pci_init cfg tbl s)
         \<and> internal_write s' = internal_write (pci_init cfg tbl s)
         \<and> mcfg_entries s' = mcfg_entries (pci_init cfg tbl s)
         \<and> pci_read cfg sg bus slot f off sz s' =
             Inr (if no_usable_entries cfg tbl then legacy_pci_read sg bus slot f off sz s'
                  else mcfg_pci_read cfg sg bus slot f off sz s')
         \<and> pci_write cfg sg bus slot f off v sz s' =
             Inr (if no_usable_entries cfg tbl then legacy_pci_write sg bus slot f off v sz s'
                  else mcfg_pci_write cfg sg bus slot f off v sz s'))
   \<and> (\<forall>cs. \<exists>s'. pci_calls cfg cs (pci_init cfg tbl s) = Inr s')"
proof -
  let ?s = "pci_init cfg tbl s"
  have sel: "internal_read ?s = (if no_usable_entries cfg tbl then Legacy else Mcfg)"
    "internal_write ?s = (if no_usable_entries cfg tbl then Legacy else Mcfg)"
    by (simp_all add: pci_init_def no_usable_entries_def Let_def split: option.splits)
  have ent: "\<not> no_usable_entries cfg tbl \<Longrightarrow> tbl = Some t \<Longrightarrow>
      mcfg_entries ?s = map (entries t)
        [0..<(unat (header_length t) - SIZEOF_MCFG cfg) div SIZEOF_MCFG_ENTRY cfg]" for t
    using fold_push_entries [of "entries t" _ "[]"]
    by (simp add: pci_init_def no_usable_entries_def Let_def)
  have later: "pci_calls cfg cs ?s = Inr s' \<Longrightarrow>
      internal_read s' = internal_read ?s \<and> internal_write s' = internal_write ?s
        \<and> mcfg_entries s' = mcfg_entries ?s" for cs s'
    by (rule pci_calls_keep)
  have ret: "\<exists>s'. pci_calls cfg cs ?s = Inr s'" for cs
    by (rule pci_calls_return) (simp_all add: sel)
  show ?thesis
    using sel ent later ret
    by (auto simp: pci_read_def pci_write_def)
qed

theorem pci_init_selection_witness:
  "\<not> no_usable_entries cfg0 (Some table0)
   \<and> internal_read (pci_init cfg0 (Some table0) pci_boot) = Mcfg
   \<and> mcfg_entries (pci_init cfg0 (Some table0) pci_boot) = map (entries table0) [0..<1]
   \<and> no_usable_entries cfg0 None
   \<and> internal_read (pci_init cfg0 None pci_boot) = Legacy
   \<and> pci_calls cfg0 [PciWrite 0 0 0 0 4 7 2] (pci_init cfg0 None pci_boot)
        = Inr (legacy_pci_write 0 0 0 0 4 7 2 (pci_init cfg0 None pci_boot))
   \<and> pci_read cfg0 0 0 0 0 4 2 (legacy_pci_write 0 0 0 0 4 7 2 (pci_init cfg0 None pci_boot))
        = Inr (legacy_pci_read 0 0 0 0 4 2
                (legacy_pci_write 0 0 0 0 4 7 2 (pci_init cfg0 None pci_boot)))"
proof -
  have n: "\<not> no_usable_entries cfg0 (Some table0)" "no_usable_entries cfg0 None"
    by (simp_all add: no_usable_entries_def cfg0_simps table0_def)
  have k: "(unat (header_length table0) - SIZEOF_MCFG cfg0) div SIZEOF_MCFG_ENTRY cfg0 = 1"
    by (simp add: cfg0_simps table0_def)
  have c: "pci_calls cfg0 [PciWrite 0 0 0 0 4 7 2] (pci_init cfg0 None pci_boot)
        = Inr (legacy_pci_write 0 0 0 0 4 7 2 (pci_init cfg0 None pci_boot))"
    by (simp add: pci_write_def init_legacy)
  note legacy = pci_init_selection [of cfg0 None pci_boot 0 0 0 0 4 2 7]
  note later = legacy [THEN conjunct2, THEN conjunct2, THEN conjunct2, THEN conjunct1,
    rule_format, OF c]
  have r: "pci_read cfg0 0 0 0 0 4 2 (legacy_pci_write 0 0 0 0 4 7 2 (pci_init cfg0 None pci_boot))
        = Inr (legacy_pci_read 0 0 0 0 4 2
                (legacy_pci_write 0 0 0 0 4 7 2 (pci_init cfg0 None pci_boot)))"
    using later n(2) by simp
  have l: "internal_read (pci_init cfg0 None pci_boot) = Legacy"
    using legacy n(2) by simp
  have m: "internal_read (pci_init cfg0 (Some table0) pci_boot) = Mcfg
    \<and> mcfg_entries (pci_init cfg0 (Some table0) pci_boot) = map (entries table0) [0..<1]"
    using pci_init_selection [of cfg0 "Some table0" pci_boot] n(1) k by simp
  show ?thesis
    using n c r l m by blast
qed

subsection \<open>Unsupported access sizes\<close>

text \<open>
  Claim C9, as the code has it. For every access size other than 1, 2 and 4: the legacy
  read and write first write the encoded address to port \<open>0xCF8\<close>, make no data-port
  access, log the unknown size, and the read returns 0; the memory-mapped read and
  write touch neither ports nor memory, log at least one diagnostic and nothing but
  diagnostics, and the read returns 0; and once a strategy is selected, \<open>pci_read\<close>
  returns 0 and \<open>pci_write\<close> returns.
\<close>

theorem unsupported_access_size:
  assumes "sz \<notin> {1, 2, 4}"
  shows "legacy_pci_read sg bus slot f off sz s =
           (0, emit (UnknownAccessSize sz)
                 (port_dword_out 0xCF8
                    (make_pci_address (ucast bus) (ucast slot) (ucast f) off) s))
   \<and> legacy_pci_write sg bus slot f off v sz s =
           emit (UnknownAccessSize sz)
             (port_dword_out 0xCF8 (make_pci_address (ucast bus) (ucast slot) (ucast f) off) s)
   \<and> (\<exists>ds. ds \<noteq> [] \<and> list_all diagnostic ds
          \<and> mcfg_pci_read cfg sg bus slot f off sz s = (0, s\<lparr>trace := trace s @ ds\<rparr>))
   \<and> (\<exists>ds. ds \<noteq> [] \<and> list_all diagnostic ds
          \<and> mcfg_pci_write cfg sg bus slot f off v sz s = s\<lparr>trace := trace s @ ds\<rparr>)
   \<and> (internal_read s \<noteq> Unset \<longrightarrow> (\<exists>s'. pci_read cfg sg bus slot f off sz s = Inr (0, s')))
   \<and> (internal_write s \<noteq> Unset \<longrightarrow> (\<exists>s'. pci_write cfg sg bus slot f off v sz s = Inr s'))"
proof -
  have lr: "legacy_pci_read sg bus slot f off sz s =
           (0, emit (UnknownAccessSize sz)
                 (port_dword_out 0xCF8
                    (make_pci_address (ucast bus) (ucast slot) (ucast f) off) s))"
    using assms by (simp add: legacy_pci_read_def Let_def)
  have lw: "legacy_pci_write sg bus slot f off v sz s =
           emit (UnknownAccessSize sz)
             (port_dword_out 0xCF8 (make_pci_address (ucast bus) (ucast slot) (ucast f) off) s)"
    using assms by (simp add: legacy_pci_write_def Let_def)
  have mr: "\<exists>ds. ds \<noteq> [] \<and> list_all diagnostic ds
          \<and> mcfg_pci_read cfg sg bus slot f off sz s = (0, s\<lparr>trace := trace s @ ds\<rparr>)"
    unfolding mcfg_pci_read_def using assms by (rule read_scan_bad_size)
  have mw: "\<exists>ds. ds \<noteq> [] \<and> list_all diagnostic ds
          \<and> mcfg_pci_write cfg sg bus slot f off v sz s = s\<lparr>trace := trace s @ ds\<rparr>"
    unfolding mcfg_pci_write_def using assms by (rule write_scan_bad_size)
  have pr: "internal_read s \<noteq> Unset \<longrightarrow> (\<exists>s'. pci_read cfg sg bus slot f off sz s = Inr (0, s'))"
    using lr mr by (cases "internal_read s") (auto simp: pci_read_def)
  have pw: "internal_write s \<noteq> Unset \<longrightarrow> (\<exists>s'. pci_write cfg sg bus slot f off v sz s = Inr s')"
    by (cases "internal_write s") (auto simp: pci_write_def)
  show ?thesis
    using lr lw mr mw pr pw by blast
qed

theorem unsupported_access_size_witness:
  "(3::u8) \<notin> {1, 2, 4}
   \<and> fst (legacy_pci_read 0 0 0 0 0 3 pci_boot) = 0
   \<and> trace (legacy_pci_write 0 0 0 0 0 9 3 pci_boot)
        = [PortDwordOut 0xCF8 0x80000000, UnknownAccessSize 3]
   \<and> (\<exists>s'. pci_read cfg0 0 0 0 0 0 3 (pci_init cfg0 (Some table0) pci_boot) = Inr (0, s'))
   \<and> (\<exists>s'. pci_write cfg0 0 0 0 0 0 9 3 (pci_init cfg0 (Some table0) pci_boot) = Inr s')"
proof -
  have a: "(3::u8) \<notin> {1, 2, 4}" by simp
  have i: "internal_read (pci_init cfg0 (Some table0) pci_boot) \<noteq> Unset"
    "internal_write (pci_init cfg0 (Some table0) pci_boot) \<noteq> Unset"
    by (simp_all add: init_mcfg)
  from unsupported_access_size [OF a, of 0 0 0 0 0 pci_boot 9 cfg0]
    unsupported_access_size [OF a, of 0 0 0 0 0 "pci_init cfg0 (Some table0) pci_boot" 9 cfg0]
  show ?thesis
    using a i by (simp add: port_defs pci_boot_def make_pci_address_def)
qed

text \<open>
  Under the legacy strategy a write with size 3 is not free of port accesses: the
  address word goes to port \<open>0xCF8\<close>, and the byte at port \<open>0xCFB\<close> changes from \<open>0\<close> to
  \<open>0x80\<close>.
\<close>

theorem unsupported_access_size_counterexample:
  "pci_write cfg0 0 0 0 0 0 9 3 (pci_init cfg0 None pci_boot)
     = Inr (legacy_pci_write 0 0 0 0 0 9 3 (pci_init cfg0 None pci_boot))
   \<and> trace (legacy_pci_write 0 0 0 0 0 9 3 (pci_init cfg0 None pci_boot))
     = [PortDwordOut 0xCF8 0x80000000, UnknownAccessSize 3]
   \<and> ports (legacy_pci_write 0 0 0 0 0 9 3 (pci_init cfg0 None pci_boot)) 0xCFB = 0x80
   \<and> ports (pci_init cfg0 None pci_boot) 0xCFB = 0"
  unfolding init_legacy
  by (simp add: pci_write_def legacy_pci_write_def port_defs pci_boot_def Let_def
        make_pci_address_def store32_def)

section \<open>Results on the thread lifecycle\<close>

subsection \<open>What each operation does to the state\<close>

declare vmm_map_loop.simps [simp del]

lemmas prim_defs = event_def LOCK_def UNLOCK_def cli_def yield_to_scheduler_def
  process_exit_def upd_thread_def set_state_t_def set_block_t_def

lemma alloc_new_thread_result:
  assumes "alloc_new_thread cfg env proc s = Inr (p, s')"
  shows "p = kmalloc_result env \<and> p \<noteq> 0 \<and> pmm_allocz_result env \<noteq> 0
    \<and> nextid s' = nextid s + 1
    \<and> thread_lock s' = False
    \<and> interrupts s' = interrupts s
    \<and> threads s' = (threads s)(p \<mapsto> (kmalloc_content env)
               \<lparr>tstack := pmm_allocz_result env, state_t := INITIAL, block_t := NOTHING,
                tid := nextid s,
                context_ptr := pmm_allocz_result env + of_nat (KSTACK_SIZE cfg)
                                 - of_nat (SIZEOF_CPU_CONTEXT cfg)\<rparr>)
    \<and> procs s' = procs s
    \<and> memory s' = memset_zero
               (memset_zero (memory s) (pmm_allocz_result env)
                  ((TSTACK_SIZE cfg div PAGE_SIZE cfg) * PAGE_SIZE cfg))
               (pmm_allocz_result env + of_nat (KSTACK_SIZE cfg)
                  - of_nat (SIZEOF_CPU_CONTEXT cfg))
               (SIZEOF_CPU_CONTEXT cfg)
    \<and> running_thrd s' = running_thrd s \<and> running_proc s' = running_proc s
    \<and> timer_tick s' = timer_tick s
    \<and> (\<exists>maps. vmm_map_loop cfg (procs s proc) (pmm_allocz_result env) 0 = Inr maps
          \<and> events s' = events s @ Lock # maps
                         @ [WriteState p INITIAL, WriteBlock p NOTHING, Unlock])"
  using assms
  by (auto simp: alloc_new_thread_def Let_def prim_defs split: if_splits sum.splits)

lemma prime_and_push_result:
  assumes "prime_and_push cfg p addr args proc s = Inr s'"
  shows "\<exists>t pr. threads s p = Some t \<and> procs s proc = Some pr
    \<and> nextid s' = nextid s
    \<and> thread_lock s' = False
    \<and> interrupts s' = interrupts s
    \<and> threads s' = (threads s)(p \<mapsto> t\<lparr>killed := False, state_t := READY\<rparr>)
    \<and> procs s' = (procs s)(proc \<mapsto> pr\<lparr>ttable := ttable pr @ [p]\<rparr>)
    \<and> memory s' = store64 (store64 (memory s) (context_ptr t + of_nat (RIP_OFFSET cfg)) addr)
                       (context_ptr t + of_nat (RDI_OFFSET cfg)) args
    \<and> running_thrd s' = running_thrd s \<and> running_proc s' = running_proc s
    \<and> timer_tick s' = timer_tick s
    \<and> events s' = events s @ [Lock, WriteState p READY, Unlock]"
  using assms
  by (auto simp: prime_and_push_def Let_def prim_defs split: option.splits)

lemma thread_block_result:
  assumes "thread_block reason s = Inr s'"
  shows "\<exists>t. threads s (running_thrd s) = Some t
    \<and> nextid s' = nextid s \<and> thread_lock s' = thread_lock s \<and> interrupts s' = False
    \<and> threads s' = (threads s)(running_thrd s \<mapsto> t\<lparr>block_t := reason, state_t := BLOCKED\<rparr>)
    \<and> procs s' = procs s \<and> memory s' = memory s
    \<and> running_thrd s' = running_thrd s \<and> running_proc s' = running_proc s
    \<and> timer_tick s' = timer_tick s
    \<and> events s' = events s @ [Cli, WriteBlock (running_thrd s) reason,
                                WriteState (running_thrd s) BLOCKED, Yield]"
  using assms
  by (auto simp: thread_block_def Let_def prim_defs split: option.splits)

lemma thread_unblock_result:
  assumes "thread_unblock p s = Inr s'"
  shows "\<exists>t. threads s p = Some t
    \<and> nextid s' = nextid s \<and> thread_lock s' = thread_lock s \<and> interrupts s' = False
    \<and> threads s' = (threads s)(p \<mapsto> t\<lparr>block_t := NOTHING, state_t := READY\<rparr>)
    \<and> procs s' = procs s \<and> memory s' = memory s
    \<and> running_thrd s' = running_thrd s \<and> running_proc s' = running_proc s
    \<and> timer_tick s' = timer_tick s
    \<and> events s' = events s @ [Cli, WriteBlock p NOTHING, WriteState p READY]"
  using assms
  by (auto simp: thread_unblock_def Let_def prim_defs split: option.splits)

lemma thread_sleep_result:
  assumes "thread_sleep n s = Inr s'"
  shows "\<exists>t. threads s (running_thrd s) = Some t
    \<and> nextid s' = nextid s \<and> thread_lock s' = False \<and> interrupts s' = False
    \<and> threads s' = (threads s)(running_thrd s \<mapsto>
          t\<lparr>target_tick := timer_tick s + n, block_t := ON_SLEEP, state_t := BLOCKED\<rparr>)
    \<and> procs s' = procs s \<and> memory s' = memory s
    \<and> running_thrd s' = running_thrd s \<and> running_proc s' = running_proc s
    \<and> timer_tick s' = timer_tick s
    \<and> events s' = events s @ [Lock, Cli, WriteBlock (running_thrd s) ON_SLEEP,
                                WriteState (running_thrd s) BLOCKED, Yield, Unlock]"
  using assms
  by (auto simp: thread_sleep_def thread_block_def Let_def prim_defs
           split: option.splits sum.splits)

lemma thread_init_unfold:
  "thread_init cfg env addr args proc s =
     (case alloc_new_thread cfg env proc s of
        Inl e \<Rightarrow> Inl e
      | Inr (thrd, s1) \<Rightarrow> prime_and_push cfg thrd addr args proc s1)"
  by (simp add: thread_init_def prime_and_push_def split: sum.splits prod.splits)

lemma thread_create_unfold:
  "thread_create cfg env addr args s =
     (case alloc_new_thread cfg env (running_proc s) s of
        Inl e \<Rightarrow> Inl e
      | Inr (thrd, s1) \<Rightarrow> prime_and_push cfg thrd addr args (running_proc s1) s1)"
  by (simp add: thread_create_def prime_and_push_def Let_def prim_defs
           split: sum.splits prod.splits option.splits)

lemma thread_init_result:
  assumes "thread_init cfg env addr args proc s = Inr s'"
  shows "\<exists>s1. alloc_new_thread cfg env proc s = Inr (kmalloc_result env, s1)
           \<and> prime_and_push cfg (kmalloc_result env) addr args proc s1 = Inr s'"
  using assms alloc_new_thread_result [of cfg env proc s]
  by (auto simp: thread_init_unfold split: sum.splits)

lemma thread_create_result:
  assumes "thread_create cfg env addr args s = Inr s'"
  shows "\<exists>s1. alloc_new_thread cfg env (running_proc s) s = Inr (kmalloc_result env, s1)
           \<and> prime_and_push cfg (kmalloc_result env) addr args (running_proc s) s1 = Inr s'"
  using assms alloc_new_thread_result [of cfg env "running_proc s" s]
  by (auto simp: thread_create_unfold split: sum.splits)

lemma exit_tail:
  assumes "(let s2 = set_state_t p TERMINATED s1;
               s3 = upd_thread p (\<lambda>t. t\<lparr>return_val := rv\<rparr>) s2;
               s4 = event (PmmFree a n) s3
            in (case procs s4 (running_proc s4) of
                  None \<Rightarrow> Inl BadPointer
                | Some pr \<Rightarrow>
                    (case ttable pr of
                       [] \<Rightarrow> Inl OutOfRange
                     | first # rest \<Rightarrow>
                         let s5 = (if p = first then
                                     process_exit
                                       (s4\<lparr>procs := (procs s4)(running_proc s4 \<mapsto>
                                              pr\<lparr>return_code := ucast rv\<rparr>)\<rparr>)
                                   else s4)
                         in Inr (yield_to_scheduler s5)))) = Inr s'"
  shows "\<exists>pr first rest. procs s1 (running_proc s1) = Some pr \<and> ttable pr = first # rest
    \<and> nextid s' = nextid s1 \<and> thread_lock s' = thread_lock s1
    \<and> procs s' = (if p = first
                   then (procs s1)(running_proc s1 \<mapsto> pr\<lparr>return_code := ucast rv\<rparr>)
                   else procs s1)
    \<and> memory s' = memory s1
    \<and> running_thrd s' = running_thrd s1 \<and> running_proc s' = running_proc s1
    \<and> timer_tick s' = timer_tick s1
    \<and> events s' = events s1 @ [WriteState p TERMINATED, PmmFree a n]
         @ (if p = first then [ProcessExit] else []) @ [Yield]"
proof -
  obtain pr where pr: "procs s1 (running_proc s1) = Some pr"
    using assms by (cases "procs s1 (running_proc s1)") (simp_all add: Let_def prim_defs)
  obtain first rest where tt: "ttable pr = first # rest"
    using assms pr by (cases "ttable pr") (simp_all add: Let_def prim_defs)
  show ?thesis
  proof (cases "p = first")
    case True
    with pr tt assms show ?thesis
      by (simp add: Let_def prim_defs) auto
  next
    case False
    with pr tt assms show ?thesis
      by (simp add: Let_def prim_defs) auto
  qed
qed

lemma thread_exit_result:
  assumes "thread_exit cfg rv s = Inr s'"
  shows "\<exists>t pr first rest. threads s (running_thrd s) = Some t
    \<and> procs s (running_proc s) = Some pr \<and> ttable pr = first # rest
    \<and> nextid s' = nextid s \<and> thread_lock s' = thread_lock s
    \<and> procs s' = (if running_thrd s = first
                   then (procs s)(running_proc s \<mapsto> pr\<lparr>return_code := ucast rv\<rparr>)
                   else procs s)
    \<and> memory s' = memory s
    \<and> running_thrd s' = running_thrd s \<and> running_proc s' = running_proc s
    \<and> timer_tick s' = timer_tick s
    \<and> events s' = events s
         @ (if state_t t = BLOCKED \<and> block_t t = ON_WAIT
            then [Cli, WriteBlock (running_thrd s) NOTHING, WriteState (running_thrd s) READY]
            else [])
         @ [WriteState (running_thrd s) TERMINATED,
            PmmFree (tstack t) (TSTACK_SIZE cfg div PAGE_SIZE cfg)]
         @ (if running_thrd s = first then [ProcessExit] else [])
         @ [Yield]"
proof -
  obtain t where t: "threads s (running_thrd s) = Some t"
    using assms by (cases "threads s (running_thrd s)") (simp_all add: thread_exit_def)
  show ?thesis
  proof (cases "state_t t = BLOCKED \<and> block_t t = ON_WAIT")
    case True
    define s1 where "s1 = set_state_t (running_thrd s) READY
                            (set_block_t (running_thrd s) NOTHING (cli s))"
    have u: "thread_unblock (running_thrd s) s = Inr s1"
      using t by (simp add: thread_unblock_def s1_def Let_def cli_def event_def)
    have s1: "procs s1 = procs s" "running_proc s1 = running_proc s" "nextid s1 = nextid s"
      "thread_lock s1 = thread_lock s" "memory s1 = memory s"
      "running_thrd s1 = running_thrd s" "timer_tick s1 = timer_tick s"
      "events s1 = events s @ [Cli, WriteBlock (running_thrd s) NOTHING,
                                WriteState (running_thrd s) READY]"
      by (simp_all add: s1_def prim_defs)
    have e: "(let s2 = set_state_t (running_thrd s) TERMINATED s1;
               s3 = upd_thread (running_thrd s) (\<lambda>t. t\<lparr>return_val := rv\<rparr>) s2;
               s4 = event (PmmFree (tstack t) (TSTACK_SIZE cfg div PAGE_SIZE cfg)) s3
            in (case procs s4 (running_proc s4) of
                  None \<Rightarrow> Inl BadPointer
                | Some pr \<Rightarrow>
                    (case ttable pr of
                       [] \<Rightarrow> Inl OutOfRange
                     | first # rest \<Rightarrow>
                         let s5 = (if running_thrd s = first then
                                     process_exit
                                       (s4\<lparr>procs := (procs s4)(running_proc s4 \<mapsto>
                                              pr\<lparr>return_code := ucast rv\<rparr>)\<rparr>)
                                   else s4)
                         in Inr (yield_to_scheduler s5)))) = Inr s'"
      using assms t True u by (simp add: thread_exit_def Let_def)
    from exit_tail [OF e] t True show ?thesis
      unfolding s1 by auto
  next
    case False
    have e: "(let s2 = set_state_t (running_thrd s) TERMINATED s;
               s3 = upd_thread (running_thrd s) (\<lambda>t. t\<lparr>return_val := rv\<rparr>) s2;
               s4 = event (PmmFree (tstack t) (TSTACK_SIZE cfg div PAGE_SIZE cfg)) s3
            in (case procs s4 (running_proc s4) of
                  None \<Rightarrow> Inl BadPointer
                | Some pr \<Rightarrow>
                    (case ttable pr of
                       [] \<Rightarrow> Inl OutOfRange
                     | first # rest \<Rightarrow>
                         let s5 = (if running_thrd s = first then
                                     process_exit
                                       (s4\<lparr>procs := (procs s4)(running_proc s4 \<mapsto>
                                              pr\<lparr>return_code := ucast rv\<rparr>)\<rparr>)
                                   else s4)
                         in Inr (yield_to_scheduler s5)))) = Inr s'"
      using assms t False by (simp add: thread_exit_def Let_def)
    from exit_tail [OF e] t False show ?thesis
      by auto
  qed
qed

lemma vmm_map_loop_returns:
  "0 < PAGE_SIZE cfg \<Longrightarrow> \<exists>maps. vmm_map_loop cfg (Some pr) stack i = Inr maps"
proof (induction cfg "Some pr" stack i rule: vmm_map_loop.induct)
  case (1 cfg stack i)
  show ?case
  proof (cases "i < TSTACK_SIZE cfg")
    case True
    with 1 obtain maps where "vmm_map_loop cfg (Some pr) stack (i + PAGE_SIZE cfg) = Inr maps"
      by auto
    with True 1 show ?thesis
      by (subst vmm_map_loop.simps) simp
  next
    case False
    then show ?thesis
      by (subst vmm_map_loop.simps) simp
  qed
qed

lemma alloc_new_thread_returns:
  assumes "kmalloc_result env \<noteq> 0" and "pmm_allocz_result env \<noteq> 0"
    and "procs s proc = Some pr" and "0 < PAGE_SIZE cfg"
  shows "\<exists>s'. alloc_new_thread cfg env proc s = Inr (kmalloc_result env, s')"
  using assms vmm_map_loop_returns [OF assms(4), of pr "pmm_allocz_result env" 0]
  by (auto simp: alloc_new_thread_def Let_def prim_defs)

lemma prime_and_push_returns:
  assumes "threads s p = Some t" and "procs s proc = Some pr"
  shows "\<exists>s'. prime_and_push cfg p addr args proc s = Inr s'"
  using assms by (simp add: prime_and_push_def Let_def prim_defs)

lemma thread_init_returns:
  assumes "kmalloc_result env \<noteq> 0" and "pmm_allocz_result env \<noteq> 0"
    and "procs s proc = Some pr" and "0 < PAGE_SIZE cfg"
  shows "\<exists>s'. thread_init cfg env addr args proc s = Inr s'"
proof -
  from alloc_new_thread_returns [OF assms] obtain s1
    where a: "alloc_new_thread cfg env proc s = Inr (kmalloc_result env, s1)" by blast
  from alloc_new_thread_result [OF a] assms(3)
  have "\<exists>t. threads s1 (kmalloc_result env) = Some t" "procs s1 proc = Some pr"
    by simp_all
  with prime_and_push_returns [of s1 "kmalloc_result env" _ proc pr cfg addr args] a
  show ?thesis
    by (auto simp: thread_init_unfold)
qed

lemma thread_create_returns:
  assumes "kmalloc_result env \<noteq> 0" and "pmm_allocz_result env \<noteq> 0"
    and "procs s (running_proc s) = Some pr" and "0 < PAGE_SIZE cfg"
  shows "\<exists>s'. thread_create cfg env addr args s = Inr s'"
proof -
  from alloc_new_thread_returns [OF assms] obtain s1
    where a: "alloc_new_thread cfg env (running_proc s) s = Inr (kmalloc_result env, s1)"
    by blast
  from alloc_new_thread_result [OF a] assms(3)
  have "\<exists>t. threads s1 (kmalloc_result env) = Some t" "procs s1 (running_proc s1) = Some pr"
    by simp_all
  with prime_and_push_returns [of s1 "kmalloc_result env" _ "running_proc s1" pr cfg addr args] a
  show ?thesis
    by (auto simp: thread_create_unfold)
qed

lemma env0_simps:
  "kmalloc_result env0 = 0x1200" "pmm_allocz_result env0 = 0x110000"
  by (simp_all add: env0_def)

lemma tcfg0_simps:
  "TSTACK_SIZE tcfg0 = 32768" "KSTACK_SIZE tcfg0 = 32768" "PAGE_SIZE tcfg0 = 4096"
  "SIZEOF_CPU_CONTEXT tcfg0 = 160" "RIP_OFFSET tcfg0 = 128" "RDI_OFFSET tcfg0 = 48"
  by (simp_all add: tcfg0_def)

lemma k_main_simps:
  "nextid k_main = 3" "thread_lock k_main = False" "procs k_main 0x2000 = Some proc0"
  "running_proc k_main = 0x2000" "running_thrd k_main = 0x1000"
  "threads k_main 0x1000 = Some thread0" "threads k_main 0x1100 = Some thread1"
  "events k_main = []" "timer_tick k_main = 500"
  by (simp_all add: k_main_def)


lemma writes_locked_maps:
  "\<forall>e\<in>set maps. \<exists>a b c d. e = VmmMap a b c d \<Longrightarrow>
     writes_locked h (maps @ es) = writes_locked h es"
  by (induction maps) auto

lemma vmm_map_loop_events:
  "vmm_map_loop cfg pr stack i = Inr maps \<Longrightarrow> \<forall>e\<in>set maps. \<exists>a b c d. e = VmmMap a b c d"
proof (induction cfg pr stack i arbitrary: maps rule: vmm_map_loop.induct)
  case (1 cfg pr stack i)
  show ?case
  proof (cases "i < TSTACK_SIZE cfg")
    case True
    with "1.prems" obtain p where p: "pr = Some p" and z: "PAGE_SIZE cfg \<noteq> 0"
      by (subst (asm) vmm_map_loop.simps) (auto split: option.splits if_splits)
    from True p z "1.prems" obtain evs
      where evs: "vmm_map_loop cfg pr stack (i + PAGE_SIZE cfg) = Inr evs"
        and maps: "maps = VmmMap (ppagemap p) (current_top_addr p + of_nat i)
                             (stack + of_nat i) 3 # evs"
      by (subst (asm) vmm_map_loop.simps) (auto split: sum.splits)
    from "1.IH" [OF True p z evs] maps show ?thesis
      by auto
  next
    case False
    with "1.prems" show ?thesis
      by (subst (asm) vmm_map_loop.simps) simp
  qed
qed

lemma new_events_append: "events s' = events s @ es \<Longrightarrow> new_events s s' = es"
  by (simp add: new_events_def)

lemma alloc_locked:
  assumes "alloc_new_thread cfg env proc s = Inr (p, s')"
  shows "writes_locked h (new_events s s')"
proof -
  from alloc_new_thread_result [OF assms] obtain maps
    where m: "vmm_map_loop cfg (procs s proc) (pmm_allocz_result env) 0 = Inr maps"
      and e: "events s' = events s @ Lock # maps
                @ [WriteState p INITIAL, WriteBlock p NOTHING, Unlock]"
    by blast
  from new_events_append [OF e] writes_locked_maps [OF vmm_map_loop_events [OF m]]
  show ?thesis by simp
qed

lemma push_locked:
  assumes "prime_and_push cfg p addr args proc s = Inr s'"
  shows "writes_locked h (new_events s s')"
  using prime_and_push_result [OF assms] by (auto simp: new_events_def)

lemma init_locked:
  assumes "thread_init cfg env addr args proc s = Inr s'"
  shows "writes_locked h (new_events s s')"
proof -
  from thread_init_result [OF assms] obtain s1
    where a: "alloc_new_thread cfg env proc s = Inr (kmalloc_result env, s1)"
      and p: "prime_and_push cfg (kmalloc_result env) addr args proc s1 = Inr s'"
    by blast
  from alloc_new_thread_result [OF a] obtain maps
    where m: "vmm_map_loop cfg (procs s proc) (pmm_allocz_result env) 0 = Inr maps"
      and e: "events s1 = events s @ Lock # maps
                @ [WriteState (kmalloc_result env) INITIAL,
                   WriteBlock (kmalloc_result env) NOTHING, Unlock]"
    by blast
  from prime_and_push_result [OF p]
  have e': "events s' = events s1 @ [Lock, WriteState (kmalloc_result env) READY, Unlock]"
    by blast
  have "new_events s s' = Lock # maps @ [WriteState (kmalloc_result env) INITIAL,
          WriteBlock (kmalloc_result env) NOTHING, Unlock, Lock,
          WriteState (kmalloc_result env) READY, Unlock]"
    using e e' by (simp add: new_events_def)
  with writes_locked_maps [OF vmm_map_loop_events [OF m]]
  show ?thesis by simp
qed

lemma create_locked:
  assumes "thread_create cfg env addr args s = Inr s'"
  shows "writes_locked h (new_events s s')"
proof -
  from thread_create_result [OF assms] obtain s1
    where a: "alloc_new_thread cfg env (running_proc s) s = Inr (kmalloc_result env, s1)"
      and p: "prime_and_push cfg (kmalloc_result env) addr args (running_proc s) s1 = Inr s'"
    by blast
  from alloc_new_thread_result [OF a] obtain maps
    where m: "vmm_map_loop cfg (procs s (running_proc s)) (pmm_allocz_result env) 0 = Inr maps"
      and e: "events s1 = events s @ Lock # maps
                @ [WriteState (kmalloc_result env) INITIAL,
                   WriteBlock (kmalloc_result env) NOTHING, Unlock]"
    by blast
  from prime_and_push_result [OF p]
  have e': "events s' = events s1 @ [Lock, WriteState (kmalloc_result env) READY, Unlock]"
    by blast
  have "new_events s s' = Lock # maps @ [WriteState (kmalloc_result env) INITIAL,
          WriteBlock (kmalloc_result env) NOTHING, Unlock, Lock,
          WriteState (kmalloc_result env) READY, Unlock]"
    using e e' by (simp add: new_events_def)
  with writes_locked_maps [OF vmm_map_loop_events [OF m]]
  show ?thesis by simp
qed

lemma thread_block_returns:
  "threads s (running_thrd s) = Some t \<Longrightarrow> \<exists>s'. thread_block reason s = Inr s'"
  by (simp add: thread_block_def Let_def prim_defs)

lemma thread_unblock_returns:
  "threads s p = Some t \<Longrightarrow> \<exists>s'. thread_unblock p s = Inr s'"
  by (simp add: thread_unblock_def Let_def prim_defs)

lemma thread_sleep_returns:
  "threads s (running_thrd s) = Some t \<Longrightarrow> \<exists>s'. thread_sleep n s = Inr s'"
  by (simp add: thread_sleep_def thread_block_def Let_def prim_defs)

lemma ucast_low_byte: "(ucast (rv AND 0xFF :: u64) :: u8) = ucast rv"
proof -
  have m: "(0xFF :: u64) = mask 8"
    by (simp add: mask_eq_exp_minus_1)
  show ?thesis
    unfolding m by (rule bit_word_eqI) (auto simp: bit_simps)
qed

lemma other_ops_keep_procs_codes:
  assumes "exec_op cfg op s = Inr s'" and "\<not> is_exit op"
  shows "return_code_of s' q = return_code_of s q"
proof (cases op)
  case (OpAlloc env proc)
  with assms obtain p where "alloc_new_thread cfg env proc s = Inr (p, s')"
    by (cases "alloc_new_thread cfg env proc s") auto
  from alloc_new_thread_result [OF this] show ?thesis
    by (simp add: return_code_of_def)
next
  case (OpInit env addr args proc)
  with assms have "thread_init cfg env addr args proc s = Inr s'" by simp
  from thread_init_result [OF this] obtain s1
    where a: "alloc_new_thread cfg env proc s = Inr (kmalloc_result env, s1)"
      and p: "prime_and_push cfg (kmalloc_result env) addr args proc s1 = Inr s'"
    by blast
  from alloc_new_thread_result [OF a] prime_and_push_result [OF p] show ?thesis
    by (auto simp: return_code_of_def)
next
  case (OpCreate env addr args)
  with assms have "thread_create cfg env addr args s = Inr s'" by simp
  from thread_create_result [OF this] obtain s1
    where a: "alloc_new_thread cfg env (running_proc s) s = Inr (kmalloc_result env, s1)"
      and p: "prime_and_push cfg (kmalloc_result env) addr args (running_proc s) s1 = Inr s'"
    by blast
  from alloc_new_thread_result [OF a] prime_and_push_result [OF p] show ?thesis
    by (auto simp: return_code_of_def)
next
  case (OpBlock reason)
  with assms thread_block_result [of reason s s'] show ?thesis
    by (auto simp: return_code_of_def)
next
  case (OpUnblock thrd)
  with assms thread_unblock_result [of thrd s s'] show ?thesis
    by (auto simp: return_code_of_def)
next
  case (OpExit rv)
  with assms show ?thesis by simp
next
  case (OpSleep n)
  with assms thread_sleep_result [of n s s'] show ?thesis
    by (auto simp: return_code_of_def)
qed

lemma thread_exit_returns:
  assumes "threads s (running_thrd s) = Some t" and "procs s (running_proc s) = Some pr"
    and "ttable pr \<noteq> []"
  shows "\<exists>s'. thread_exit cfg rv s = Inr s'"
proof -
  have "\<exists>s1. (if state_t t = BLOCKED \<and> block_t t = ON_WAIT
               then thread_unblock (running_thrd s) s else Inr s) = Inr s1
          \<and> procs s1 = procs s \<and> running_proc s1 = running_proc s"
    using assms(1) by (simp add: thread_unblock_def Let_def prim_defs)
  then obtain s1 where s1: "(if state_t t = BLOCKED \<and> block_t t = ON_WAIT
               then thread_unblock (running_thrd s) s else Inr s) = Inr s1"
      "procs s1 = procs s" "running_proc s1 = running_proc s"
    by blast
  with assms show ?thesis
    by (cases "ttable pr") (simp_all add: thread_exit_def Let_def prim_defs)
qed

lemma k_second_simps:
  "procs k_second 0x2000 = Some proc0"
  "running_proc k_second = 0x2000" "running_thrd k_second = 0x1100"
  "threads k_second 0x1100 = Some thread1"
  by (simp_all add: k_second_def k_main_def)

lemma exec_op_nextid:
  assumes "exec_op cfg op s = Inr s1"
  shows "(allocated op = None \<longrightarrow> nextid s1 = nextid s \<and> assigned_id op s1 = [])
       \<and> (allocated op \<noteq> None \<longrightarrow> nextid s1 = nextid s + 1 \<and> assigned_id op s1 = [nextid s])"
proof (cases op)
  case (OpAlloc env proc)
  with assms obtain p where "alloc_new_thread cfg env proc s = Inr (p, s1)"
    by (cases "alloc_new_thread cfg env proc s") auto
  from alloc_new_thread_result [OF this] OpAlloc show ?thesis
    by (simp add: assigned_id_def)
next
  case (OpInit env addr args proc)
  with assms have "thread_init cfg env addr args proc s = Inr s1" by simp
  from thread_init_result [OF this] obtain s0
    where a: "alloc_new_thread cfg env proc s = Inr (kmalloc_result env, s0)"
      and p: "prime_and_push cfg (kmalloc_result env) addr args proc s0 = Inr s1"
    by blast
  from alloc_new_thread_result [OF a] prime_and_push_result [OF p] OpInit show ?thesis
    by (auto simp: assigned_id_def)
next
  case (OpCreate env addr args)
  with assms have "thread_create cfg env addr args s = Inr s1" by simp
  from thread_create_result [OF this] obtain s0
    where a: "alloc_new_thread cfg env (running_proc s) s = Inr (kmalloc_result env, s0)"
      and p: "prime_and_push cfg (kmalloc_result env) addr args (running_proc s) s0 = Inr s1"
    by blast
  from alloc_new_thread_result [OF a] prime_and_push_result [OF p] OpCreate show ?thesis
    by (auto simp: assigned_id_def)
next
  case (OpBlock reason)
  with assms thread_block_result [of reason s s1] show ?thesis
    by (auto simp: assigned_id_def)
next
  case (OpUnblock thrd)
  with assms thread_unblock_result [of thrd s s1] show ?thesis
    by (auto simp: assigned_id_def)
next
  case (OpExit rv)
  with assms thread_exit_result [of cfg rv s s1] show ?thesis
    by (auto simp: assigned_id_def)
next
  case (OpSleep n)
  with assms thread_sleep_result [of n s s1] show ?thesis
    by (auto simp: assigned_id_def)
qed

lemma run_ops_ids:
  "run_ops cfg ops s = Inr (ids, s') \<Longrightarrow>
     ids = map (\<lambda>i. nextid s + of_nat i) [0..<length ids]
       \<and> nextid s' = nextid s + of_nat (length ids)"
proof (induction ops arbitrary: s ids)
  case Nil
  then show ?case by simp
next
  case (Cons op ops)
  from Cons.prems obtain s1 ids1
    where e: "exec_op cfg op s = Inr s1"
      and r: "run_ops cfg ops s1 = Inr (ids1, s')"
      and i: "ids = assigned_id op s1 @ ids1"
    by (auto split: sum.splits)
  note ih = Cons.IH [OF r]
  show ?case
  proof (cases "allocated op")
    case None
    with exec_op_nextid [OF e] ih i show ?thesis by simp
  next
    case (Some p)
    with exec_op_nextid [OF e] have n: "nextid s1 = nextid s + 1" "assigned_id op s1 = [nextid s]"
      by simp_all
    have "ids1 = map (\<lambda>i. nextid s + of_nat (Suc i)) [0..<length ids1]"
      using ih n by (simp add: add.assoc)
    then have "ids = map (\<lambda>i. nextid s + of_nat i) (0 # map Suc [0..<length ids1])"
      using i n by (simp add: comp_def)
    also have "0 # map Suc [0..<length ids1] = [0..<length ids]"
      using i n by (simp add: upt_conv_Cons map_Suc_upt del: upt_Suc)
    finally show ?thesis
      using ih i n by (simp add: add.assoc)
  qed
qed

lemma unat_consecutive:
  "unat (a::u32) + i < 2 ^ 32 \<Longrightarrow> unat (a + of_nat i) = unat a + i"
proof -
  assume b: "unat a + i < 2 ^ 32"
  then have i: "unat (word_of_nat i :: u32) = i"
    by (simp add: unat_of_nat)
  with b have "unat a + unat (word_of_nat i :: u32) < 2 ^ LENGTH(32)"
    by simp
  then have "unat (a + word_of_nat i) = unat a + unat (word_of_nat i :: u32)"
    by (simp only: unat_add_lem)
  with i show ?thesis by simp
qed

lemma consecutive_increasing:
  assumes "unat (a::u32) + n \<le> 2 ^ 32"
  shows "sorted_wrt (<) (map (\<lambda>i. a + of_nat i) [0..<n])"
  unfolding sorted_wrt_iff_nth_less
proof (intro allI impI)
  fix i j :: nat
  assume ij: "i < j" and j: "j < length (map (\<lambda>i. a + of_nat i) [0..<n])"
  then have "unat a + i < 2 ^ 32" "unat a + j < 2 ^ 32"
    using assms by simp_all
  then have "unat (a + of_nat i) < unat (a + of_nat j)"
    using ij by (simp add: unat_consecutive)
  then show "map (\<lambda>i. a + of_nat i) [0..<n] ! i < map (\<lambda>i. a + of_nat i) [0..<n] ! j"
    using ij j by (simp add: word_less_nat_alt)
qed

lemma k_boot_simps:
  "nextid k_boot = 1" "procs k_boot 0x2000 = Some (proc0\<lparr>ttable := []\<rparr>)"
  "running_proc k_boot = 0x2000"
  by (simp_all add: k_boot_def)

lemma env1_simps:
  "kmalloc_result env1 = 0x1300" "pmm_allocz_result env1 = 0x118000"
  by (simp_all add: env1_def)

lemma run_replicate_alloc:
  assumes "kmalloc_result env \<noteq> 0" and "pmm_allocz_result env \<noteq> 0" and "0 < PAGE_SIZE cfg"
  shows "procs s proc = Some pr \<Longrightarrow>
     \<exists>ids s'. run_ops cfg (replicate n (OpAlloc env proc)) s = Inr (ids, s') \<and> length ids = n"
proof (induction n arbitrary: s)
  case 0
  then show ?case by simp
next
  case (Suc n)
  from alloc_new_thread_returns [OF assms(1,2) Suc.prems assms(3)] obtain s1
    where a: "alloc_new_thread cfg env proc s = Inr (kmalloc_result env, s1)" by blast
  then have e: "exec_op cfg (OpAlloc env proc) s = Inr s1" by simp
  from alloc_new_thread_result [OF a] Suc.prems have "procs s1 proc = Some pr" by simp
  from Suc.IH [OF this] obtain ids s'
    where r: "run_ops cfg (replicate n (OpAlloc env proc)) s1 = Inr (ids, s')" "length ids = n"
    by blast
  from exec_op_nextid [OF e] have "assigned_id (OpAlloc env proc) s1 = [nextid s]" by simp
  with e r show ?case by simp
qed

lemma wrapped_not_increasing:
  assumes "run_ops cfg ops s = Inr (ids, s')" and "nextid s = 1" and "length ids = 2 ^ 32"
  shows "\<not> sorted_wrt (<) ids"
proof
  assume srt: "sorted_wrt (<) ids"
  from run_ops_ids [OF assms(1)] assms(2)
  have i: "ids = map (\<lambda>i. 1 + of_nat i) [0..<length ids]" by simp
  have n: "ids ! i = 1 + of_nat i" if "i < length ids" for i
    by (subst i) (simp add: that)
  have "ids ! 4294967294 < ids ! 4294967295"
    using sorted_wrt_nth_less [OF srt, of 4294967294 4294967295] assms(3) by simp
  moreover have "ids ! 4294967294 = 4294967295" "ids ! 4294967295 = 0"
    using assms(3) by (simp_all add: n)
  ultimately show False by simp
qed

lemma wrapped_not_distinct:
  assumes "run_ops cfg ops s = Inr (ids, s')" and "nextid s = 1" and "length ids = 2 ^ 32 + 1"
  shows "\<not> distinct ids"
proof
  assume d: "distinct ids"
  from run_ops_ids [OF assms(1)] assms(2)
  have i: "ids = map (\<lambda>i. 1 + of_nat i) [0..<length ids]" by simp
  have n: "ids ! i = 1 + of_nat i" if "i < length ids" for i
    by (subst i) (simp add: that)
  have "ids ! 0 = 1" "ids ! 4294967296 = 1"
    using assms(3) by (simp_all add: n)
  then have "ids ! 0 = ids ! 4294967296" by simp
  with d assms(3) show False
    by (simp add: distinct_conv_nth)
qed

subsection \<open>States after allocation and creation\<close>

text \<open>
  Claim C8. When \<open>alloc_new_thread\<close> returns, the new thread is in state INITIAL with
  block reason NOTHING. When \<open>thread_init\<close> or \<open>thread_create\<close> returns, the new thread is
  in state READY, and the thread table of its process (the given process, or the
  running one) is the old table with the new thread appended, so the thread is its
  last element.
\<close>

theorem states_after_creation:
  "(alloc_new_thread cfg env proc s = Inr (thrd, s1) \<longrightarrow>
      (\<exists>t. threads s1 thrd = Some t \<and> state_t t = INITIAL \<and> block_t t = NOTHING))
   \<and> (thread_init cfg env addr args proc s = Inr s2 \<longrightarrow>
      (\<exists>t pr0 pr. threads s2 (kmalloc_result env) = Some t \<and> state_t t = READY
         \<and> procs s proc = Some pr0 \<and> procs s2 proc = Some pr
         \<and> ttable pr = ttable pr0 @ [kmalloc_result env]
         \<and> last (ttable pr) = kmalloc_result env))
   \<and> (thread_create cfg env addr args s = Inr s3 \<longrightarrow>
      (\<exists>t pr0 pr. threads s3 (kmalloc_result env) = Some t \<and> state_t t = READY
         \<and> procs s (running_proc s) = Some pr0 \<and> procs s3 (running_proc s) = Some pr
         \<and> ttable pr = ttable pr0 @ [kmalloc_result env]
         \<and> last (ttable pr) = kmalloc_result env))"
proof (intro conjI impI)
  assume "alloc_new_thread cfg env proc s = Inr (thrd, s1)"
  from alloc_new_thread_result [OF this]
  show "\<exists>t. threads s1 thrd = Some t \<and> state_t t = INITIAL \<and> block_t t = NOTHING"
    by simp
next
  assume "thread_init cfg env addr args proc s = Inr s2"
  from thread_init_result [OF this] obtain s1
    where a: "alloc_new_thread cfg env proc s = Inr (kmalloc_result env, s1)"
      and p: "prime_and_push cfg (kmalloc_result env) addr args proc s1 = Inr s2"
    by blast
  from alloc_new_thread_result [OF a] prime_and_push_result [OF p]
  show "\<exists>t pr0 pr. threads s2 (kmalloc_result env) = Some t \<and> state_t t = READY
         \<and> procs s proc = Some pr0 \<and> procs s2 proc = Some pr
         \<and> ttable pr = ttable pr0 @ [kmalloc_result env]
         \<and> last (ttable pr) = kmalloc_result env"
    by auto
next
  assume "thread_create cfg env addr args s = Inr s3"
  from thread_create_result [OF this] obtain s1
    where a: "alloc_new_thread cfg env (running_proc s) s = Inr (kmalloc_result env, s1)"
      and p: "prime_and_push cfg (kmalloc_result env) addr args (running_proc s) s1 = Inr s3"
    by blast
  from alloc_new_thread_result [OF a] prime_and_push_result [OF p]
  show "\<exists>t pr0 pr. threads s3 (kmalloc_result env) = Some t \<and> state_t t = READY
         \<and> procs s (running_proc s) = Some pr0 \<and> procs s3 (running_proc s) = Some pr
         \<and> ttable pr = ttable pr0 @ [kmalloc_result env]
         \<and> last (ttable pr) = kmalloc_result env"
    by auto
qed

theorem states_after_creation_witness:
  "(\<exists>s1. alloc_new_thread tcfg0 env0 0x2000 k_main = Inr (0x1200, s1)
       \<and> map_option state_t (threads s1 0x1200) = Some INITIAL
       \<and> map_option block_t (threads s1 0x1200) = Some NOTHING)
   \<and> (\<exists>s2. thread_init tcfg0 env0 0x400000 7 0x2000 k_main = Inr s2
       \<and> map_option state_t (threads s2 0x1200) = Some READY
       \<and> map_option ttable (procs s2 0x2000) = Some [0x1000, 0x1100, 0x1200])
   \<and> (\<exists>s3. thread_create tcfg0 env0 0x400000 7 k_main = Inr s3
       \<and> map_option state_t (threads s3 0x1200) = Some READY
       \<and> map_option ttable (procs s3 0x2000) = Some [0x1000, 0x1100, 0x1200])"
proof -
  have pre: "kmalloc_result env0 \<noteq> 0" "pmm_allocz_result env0 \<noteq> 0"
    "procs k_main 0x2000 = Some proc0" "procs k_main (running_proc k_main) = Some proc0"
    "0 < PAGE_SIZE tcfg0"
    by (simp_all add: env0_simps tcfg0_simps k_main_simps)
  obtain s1 where a: "alloc_new_thread tcfg0 env0 0x2000 k_main = Inr (0x1200, s1)"
    using alloc_new_thread_returns [OF pre(1,2,3,5)] by (auto simp: env0_simps)
  obtain s2 where i: "thread_init tcfg0 env0 0x400000 7 0x2000 k_main = Inr s2"
    using thread_init_returns [OF pre(1,2,3,5)] by blast
  obtain s3 where c: "thread_create tcfg0 env0 0x400000 7 k_main = Inr s3"
    using thread_create_returns [OF pre(1,2,4,5)] by blast
  note T = states_after_creation [of tcfg0 env0 "0x2000" k_main "0x1200" s1 "0x400000" 7 s2 s3]
  have 1: "map_option state_t (threads s1 0x1200) = Some INITIAL
       \<and> map_option block_t (threads s1 0x1200) = Some NOTHING"
    using T a by auto
  have 2: "map_option state_t (threads s2 0x1200) = Some READY
       \<and> map_option ttable (procs s2 0x2000) = Some [0x1000, 0x1100, 0x1200]"
    using T i by (auto simp: env0_simps k_main_simps proc0_def)
  have 3: "map_option state_t (threads s3 0x1200) = Some READY
       \<and> map_option ttable (procs s3 0x2000) = Some [0x1000, 0x1100, 0x1200]"
    using T c by (auto simp: env0_simps k_main_simps proc0_def)
  show ?thesis
    using a i c 1 2 3 by blast
qed

subsection \<open>The initial execution context\<close>






subsection \<open>The lock around writes to state and block reason\<close>

text \<open>
  Claim C1, as the code has it. \<open>alloc_new_thread\<close>, \<open>thread_init\<close> and \<open>thread_create\<close> take
  \<open>thread_lock\<close> themselves around every write they make to a state or block-reason
  field, and \<open>thread_sleep\<close> holds it across the writes of \<open>thread_block\<close>: whatever the
  lock status on entry, their writes come while the lock is held. \<open>thread_block\<close> and
  \<open>thread_unblock\<close> do not take the lock: they disable interrupts, write the block
  reason and the state, and leave the lock as it was, so their writes come while the
  lock is held exactly when the caller holds it on entry.
\<close>

theorem lock_discipline:
  "(allocated op \<noteq> None \<and> exec_op cfg op s = Inr s' \<longrightarrow> writes_locked h (new_events s s'))
   \<and> (thread_sleep n s = Inr s' \<longrightarrow> writes_locked h (new_events s s'))
   \<and> (thread_block reason s = Inr s' \<longrightarrow>
        new_events s s' = [Cli, WriteBlock (running_thrd s) reason,
                           WriteState (running_thrd s) BLOCKED, Yield]
        \<and> \<not> interrupts s' \<and> thread_lock s' = thread_lock s
        \<and> (writes_locked h (new_events s s') \<longleftrightarrow> h))
   \<and> (thread_unblock thrd s = Inr s' \<longrightarrow>
        new_events s s' = [Cli, WriteBlock thrd NOTHING, WriteState thrd READY]
        \<and> \<not> interrupts s' \<and> thread_lock s' = thread_lock s
        \<and> (writes_locked h (new_events s s') \<longleftrightarrow> h))"
proof -
  have alloc: "writes_locked h (new_events s s')"
    if a: "allocated op \<noteq> None \<and> exec_op cfg op s = Inr s'"
  proof (cases op)
    case (OpAlloc env proc)
    with a obtain p where "alloc_new_thread cfg env proc s = Inr (p, s')"
      by (cases "alloc_new_thread cfg env proc s") auto
    then show ?thesis by (rule alloc_locked)
  next
    case (OpInit env addr args proc)
    with a show ?thesis by (simp add: init_locked)
  next
    case (OpCreate env addr args)
    with a show ?thesis by (simp add: create_locked)
  qed (use a in simp_all)
  have sleep: "writes_locked h (new_events s s')" if "thread_sleep n s = Inr s'"
    using thread_sleep_result [OF that] by (auto simp: new_events_def)
  have block: "new_events s s' = [Cli, WriteBlock (running_thrd s) reason,
                           WriteState (running_thrd s) BLOCKED, Yield]
        \<and> \<not> interrupts s' \<and> thread_lock s' = thread_lock s
        \<and> (writes_locked h (new_events s s') \<longleftrightarrow> h)"
    if "thread_block reason s = Inr s'"
    using thread_block_result [OF that] by (auto simp: new_events_def)
  have unblock: "new_events s s' = [Cli, WriteBlock thrd NOTHING, WriteState thrd READY]
        \<and> \<not> interrupts s' \<and> thread_lock s' = thread_lock s
        \<and> (writes_locked h (new_events s s') \<longleftrightarrow> h)"
    if "thread_unblock thrd s = Inr s'"
    using thread_unblock_result [OF that] by (auto simp: new_events_def)
  show ?thesis
    using alloc sleep block unblock by blast
qed

theorem lock_discipline_witness:
  "(\<exists>s'. exec_op tcfg0 (OpInit env0 0x400000 7 0x2000) k_main = Inr s'
        \<and> writes_locked (thread_lock k_main) (new_events k_main s'))
   \<and> (\<exists>s'. thread_sleep 10 k_main = Inr s'
        \<and> writes_locked (thread_lock k_main) (new_events k_main s'))
   \<and> (\<exists>s'. thread_block ON_WAIT k_main = Inr s'
        \<and> new_events k_main s' = [Cli, WriteBlock 0x1000 ON_WAIT, WriteState 0x1000 BLOCKED, Yield]
        \<and> \<not> writes_locked (thread_lock k_main) (new_events k_main s'))
   \<and> (\<exists>s'. thread_unblock 0x1100 k_main = Inr s'
        \<and> new_events k_main s' = [Cli, WriteBlock 0x1100 NOTHING, WriteState 0x1100 READY]
        \<and> \<not> writes_locked (thread_lock k_main) (new_events k_main s'))"
proof -
  obtain s1 where 1: "exec_op tcfg0 (OpInit env0 0x400000 7 0x2000) k_main = Inr s1"
    using thread_init_returns [of env0 k_main "0x2000" proc0 tcfg0 "0x400000" 7]
    by (auto simp: env0_simps tcfg0_simps k_main_simps)
  obtain s2 where 2: "thread_sleep 10 k_main = Inr s2"
    using thread_sleep_returns [of k_main thread0 10] by (auto simp: k_main_simps)
  obtain s3 where 3: "thread_block ON_WAIT k_main = Inr s3"
    using thread_block_returns [of k_main thread0 ON_WAIT] by (auto simp: k_main_simps)
  obtain s4 where 4: "thread_unblock 0x1100 k_main = Inr s4"
    using thread_unblock_returns [of k_main "0x1100" thread1] by (auto simp: k_main_simps)
  have a: "allocated (OpInit env0 0x400000 7 0x2000) \<noteq> None" by simp
  from lock_discipline [of "OpInit env0 0x400000 7 0x2000" tcfg0 k_main s1 "thread_lock k_main"] a 1
  have w1: "writes_locked (thread_lock k_main) (new_events k_main s1)" by blast
  from lock_discipline [of _ _ k_main s2 "thread_lock k_main" 10] 2
  have w2: "writes_locked (thread_lock k_main) (new_events k_main s2)" by blast
  from lock_discipline [of _ _ k_main s3 "thread_lock k_main" _ ON_WAIT] 3
  have w3: "new_events k_main s3 = [Cli, WriteBlock 0x1000 ON_WAIT, WriteState 0x1000 BLOCKED, Yield]
        \<and> \<not> writes_locked (thread_lock k_main) (new_events k_main s3)"
    by (simp add: k_main_simps)
  from lock_discipline [of _ _ k_main s4 "thread_lock k_main" _ _ "0x1100"] 4
  have w4: "new_events k_main s4 = [Cli, WriteBlock 0x1100 NOTHING, WriteState 0x1100 READY]
        \<and> \<not> writes_locked (thread_lock k_main) (new_events k_main s4)"
    by (simp add: k_main_simps)
  show ?thesis
    using 1 2 3 4 w1 w2 w3 w4 by blast
qed

text \<open>
  With the lock free on entry, \<open>thread_unblock\<close>, \<open>thread_block\<close> and \<open>thread_exit\<close> each write
  a state or block-reason field while the lock is not held.
\<close>

theorem lock_discipline_counterexample:
  "thread_lock k_main = False
   \<and> op_locked tcfg0 (OpUnblock 0x1100) k_main = Some False
   \<and> op_locked tcfg0 (OpBlock ON_WAIT) k_main = Some False
   \<and> op_locked tcfg0 (OpExit 7) k_main = Some False"
  by (simp add: op_locked_def thread_unblock_def thread_block_def thread_exit_def
        Let_def prim_defs new_events_def k_main_def proc0_def thread0_def thread1_def)

subsection \<open>The process return code\<close>

text \<open>
  Claim C5. When \<open>thread_exit\<close> returns and the calling thread is not the one at index 0
  of the thread table of its process, the return code of every process is unchanged.
  When the calling thread is the one at index 0, the return code of its process is
  \<open>return_val & 0xFF\<close> and the return codes of the other processes are unchanged. No
  other operation of the file changes the return code of any process.
\<close>

theorem exit_return_code:
  "(thread_exit cfg rv s = Inr s' \<longrightarrow>
      (\<exists>pr. procs s (running_proc s) = Some pr \<and> ttable pr \<noteq> []
         \<and> (running_thrd s \<noteq> ttable pr ! 0 \<longrightarrow>
               (\<forall>q. return_code_of s' q = return_code_of s q))
         \<and> (running_thrd s = ttable pr ! 0 \<longrightarrow>
               return_code_of s' (running_proc s) = Some (ucast (rv AND 0xFF))
               \<and> (\<forall>q. q \<noteq> running_proc s \<longrightarrow> return_code_of s' q = return_code_of s q))))
   \<and> (exec_op cfg op s = Inr s' \<and> \<not> is_exit op \<longrightarrow>
        (\<forall>q. return_code_of s' q = return_code_of s q))"
proof -
  have ex: "\<exists>pr. procs s (running_proc s) = Some pr \<and> ttable pr \<noteq> []
         \<and> (running_thrd s \<noteq> ttable pr ! 0 \<longrightarrow>
               (\<forall>q. return_code_of s' q = return_code_of s q))
         \<and> (running_thrd s = ttable pr ! 0 \<longrightarrow>
               return_code_of s' (running_proc s) = Some (ucast (rv AND 0xFF))
               \<and> (\<forall>q. q \<noteq> running_proc s \<longrightarrow> return_code_of s' q = return_code_of s q))"
    if "thread_exit cfg rv s = Inr s'"
    using thread_exit_result [OF that]
    by (auto simp: return_code_of_def ucast_low_byte)
  have other: "\<forall>q. return_code_of s' q = return_code_of s q"
    if "exec_op cfg op s = Inr s' \<and> \<not> is_exit op"
    using that other_ops_keep_procs_codes by blast
  show ?thesis
    using ex other by blast
qed

theorem exit_return_code_witness:
  "(\<exists>s'. thread_exit tcfg0 0x1234 k_main = Inr s'
       \<and> return_code_of k_main 0x2000 = Some 0 \<and> return_code_of s' 0x2000 = Some 0x34)
   \<and> (\<exists>s'. thread_exit tcfg0 0x1234 k_second = Inr s'
       \<and> return_code_of s' 0x2000 = Some 0)
   \<and> (\<exists>s'. exec_op tcfg0 (OpUnblock 0x1100) k_main = Inr s'
       \<and> return_code_of s' 0x2000 = Some 0)"
proof -
  obtain s1 where 1: "thread_exit tcfg0 0x1234 k_main = Inr s1"
    using thread_exit_returns [of k_main thread0 proc0 tcfg0 "0x1234"]
    by (auto simp: k_main_simps proc0_def)
  obtain s2 where 2: "thread_exit tcfg0 0x1234 k_second = Inr s2"
    using thread_exit_returns [of k_second thread1 proc0 tcfg0 "0x1234"]
    by (auto simp: k_second_simps proc0_def)
  obtain s3 where 3: "exec_op tcfg0 (OpUnblock 0x1100) k_main = Inr s3"
    using thread_unblock_returns [of k_main "0x1100" thread1] by (auto simp: k_main_simps)
  have r0: "return_code_of k_main 0x2000 = Some 0" "return_code_of k_second 0x2000 = Some 0"
    by (simp_all add: return_code_of_def k_main_simps k_second_simps proc0_def)
  have m: "(ucast (0x1234 AND 0xFF :: u64) :: u8) = 0x34"
    by simp
  from exit_return_code [of tcfg0 "0x1234" k_main s1] 1
  have w1: "return_code_of s1 0x2000 = Some 0x34"
    by (simp add: k_main_simps proc0_def m)
  from exit_return_code [of tcfg0 "0x1234" k_second s2] 2 r0
  have w2: "return_code_of s2 0x2000 = Some 0"
    by (simp add: k_second_simps proc0_def)
  from exit_return_code [of tcfg0 _ k_main s3 "OpUnblock 0x1100"] 3 r0
  have w3: "return_code_of s3 0x2000 = Some 0"
    by simp
  show ?thesis
    using 1 2 3 r0 w1 w2 w3 by blast
qed

subsection \<open>Thread ids\<close>

text \<open>
  Claim C7, as the code has it. In every run of operations that returns, the ids
  assigned are the consecutive values of the 32-bit counter from its value at the
  start of the run. As long as the counter does not pass \<open>2^32 - 1\<close> (from boot, where
  it is 1: for at most \<open>2^32 - 1\<close> allocations), the ids are strictly increasing in
  allocation order and pairwise distinct.
\<close>

theorem thread_ids_increasing:
  assumes "run_ops cfg ops s = Inr (ids, s')"
    and "unat (nextid s) + length ids \<le> 2 ^ 32"
  shows "ids = map (\<lambda>i. nextid s + of_nat i) [0..<length ids]
    \<and> sorted_wrt (<) ids \<and> distinct ids"
proof -
  from run_ops_ids [OF assms(1)]
  have i: "ids = map (\<lambda>i. nextid s + of_nat i) [0..<length ids]"
    by blast
  from consecutive_increasing [OF assms(2)] i
  have s: "sorted_wrt (<) ids"
    by simp
  then have "distinct ids"
    by (simp add: strict_sorted_iff)
  with i s show ?thesis by blast
qed

theorem thread_ids_increasing_witness:
  "\<exists>s'. run_ops tcfg0 [OpCreate env0 0x400000 7, OpSleep 5, OpInit env1 0x400100 8 0x2000] k_main
           = Inr ([3, 4], s')
      \<and> unat (nextid k_main) + length [3, 4 :: u32] \<le> 2 ^ 32
      \<and> sorted_wrt (<) [3, 4 :: u32] \<and> distinct [3, 4 :: u32]"
proof -
  have "\<exists>ids s'. run_ops tcfg0 [OpCreate env0 0x400000 7, OpSleep 5, OpInit env1 0x400100 8 0x2000]
           k_main = Inr (ids, s') \<and> length ids = 2"
    by (simp add: thread_create_unfold thread_init_unfold thread_sleep_def thread_block_def
          alloc_new_thread_def prime_and_push_def vmm_map_loop.simps assigned_id_def
          Let_def prim_defs k_main_def env0_def env1_def tcfg0_def proc0_def)
  then obtain ids s'
    where r: "run_ops tcfg0 [OpCreate env0 0x400000 7, OpSleep 5, OpInit env1 0x400100 8 0x2000]
           k_main = Inr (ids, s')" and l: "length ids = 2"
    by blast
  have b: "unat (nextid k_main) + length ids \<le> 2 ^ 32"
    using l by (simp add: k_main_simps)
  from thread_ids_increasing [OF r b] l
  have "ids = [3, 4]"
    by (simp add: k_main_simps upt_rec numeral_2_eq_2)
  with thread_ids_increasing [OF r b] r b show ?thesis
    by auto
qed

text \<open>
  The counter is 32 bits wide and wraps. From boot, with the allocators handing out
  the same blocks again each time (as after a free), the allocations number
  \<open>2^32 - 1\<close> and \<open>2^32\<close> get the ids \<open>0xFFFFFFFF\<close> and \<open>0\<close>, and allocation number \<open>2^32 + 1\<close>
  gets the id 1 of the first.
\<close>

theorem thread_ids_increasing_counterexample:
  "nextid k_boot = 1
   \<and> map_option (sorted_wrt (<)) (run_ids tcfg0 (replicate (2 ^ 32) (OpAlloc env0 0x2000)) k_boot)
       = Some False
   \<and> map_option distinct (run_ids tcfg0 (replicate (2 ^ 32 + 1) (OpAlloc env0 0x2000)) k_boot)
       = Some False"
proof -
  have pre: "kmalloc_result env0 \<noteq> 0" "pmm_allocz_result env0 \<noteq> 0" "0 < PAGE_SIZE tcfg0"
    by (simp_all add: env0_simps tcfg0_simps)
  from run_replicate_alloc [OF pre k_boot_simps(2), of "2 ^ 32"] obtain ids s'
    where a: "run_ops tcfg0 (replicate (2 ^ 32) (OpAlloc env0 0x2000)) k_boot = Inr (ids, s')"
      "length ids = 2 ^ 32"
    by blast
  from run_replicate_alloc [OF pre k_boot_simps(2), of "2 ^ 32 + 1"] obtain ids2 s2
    where b: "run_ops tcfg0 (replicate (2 ^ 32 + 1) (OpAlloc env0 0x2000)) k_boot = Inr (ids2, s2)"
      "length ids2 = 2 ^ 32 + 1"
    by blast
  from wrapped_not_increasing [OF a(1) k_boot_simps(1) a(2)]
    wrapped_not_distinct [OF b(1) k_boot_simps(1) b(2)]
  show ?thesis
    unfolding run_ids_def a(1) b(1) by (simp add: k_boot_simps)
qed

end
